theory Spec2Isabelle
  imports Complex_Main "HOL-Library.Word" "HOL-Library.AList" "HOL-Library.Multiset"
begin

section \<open>JavaScript strings\<close>

text \<open>
  A JavaScript string is a sequence of UTF-16 code units, and \<open>length\<close>, \<open>slice\<close>,
  \<open>indexOf\<close> and \<open>startsWith\<close> count code units. The embedding keeps that: a string is a
  list of 16-bit words. \<open>js\<close> turns an ASCII literal into such a string.
\<close>

type_synonym jschar = "16 word"
type_synonym jsstring = "jschar list"

definition js :: "string \<Rightarrow> jsstring" where
  "js s = map (\<lambda>c. of_nat (of_char c)) s"

section \<open>The in-memory store (infrastructure/store/store-client.ts)\<close>

text \<open>
  \<open>InMemoryStore\<close> keeps a \<open>Map\<close> from keys to entries \<open>{ value, expiresAt }\<close>. A \<open>Map\<close>
  iterates in insertion order, and \<open>set\<close> evicts the first key when the map is full, so the
  embedding is an association list: \<open>AList.update\<close> overwrites in place or appends,
  \<open>AList.delete\<close> removes.

  The values the risk engine stores are the decimal numerals that \<open>incr\<close> writes
  (\<open>(parseInt(current || '0', 10) + 1).toString()\<close>); the embedding stores the integer.

  \<open>Date.now()\<close> is read from the host. The embedding takes the clock as a function
  \<open>clk\<close> from the number of readings made so far to the value read, and counts the readings
  in the state, so that time may pass between any two readings.
\<close>

record entry =
  val :: int
  expiresAt :: "int option"

record mem =
  entries :: "(jsstring \<times> entry) list"
  reads :: nat

type_synonym clock = "nat \<Rightarrow> int"

definition maxSize :: nat where
  "maxSize = 10000"

definition Date_now :: "clock \<Rightarrow> mem \<Rightarrow> int \<times> mem" where
  "Date_now clk m = (clk (reads m), m\<lparr>reads := Suc (reads m)\<rparr>)"

text \<open>
  \<open>entry.expiresAt && ...\<close> and \<open>ttlSeconds ? ... : null\<close>: \<open>null\<close>, \<open>undefined\<close> and
  \<open>0\<close> are falsy. \<open>truthy\<close> keeps the number when the test passes.
\<close>

definition truthy :: "int option \<Rightarrow> int option" where
  "truthy x = (case x of None \<Rightarrow> None | Some n \<Rightarrow> if n = 0 then None else Some n)"

definition store_get :: "clock \<Rightarrow> jsstring \<Rightarrow> mem \<Rightarrow> int option \<times> mem" where
  "store_get clk key m =
     (case map_of (entries m) key of
        None \<Rightarrow> (None, m)
      | Some e \<Rightarrow>
          (case truthy (expiresAt e) of
             None \<Rightarrow> (Some (val e), m)
           | Some ex \<Rightarrow>
               (let (now, m1) = Date_now clk m in
                if now > ex
                then (None, m1\<lparr>entries := AList.delete key (entries m1)\<rparr>)
                else (Some (val e), m1))))"

definition store_set :: "clock \<Rightarrow> jsstring \<Rightarrow> int \<Rightarrow> int option \<Rightarrow> mem \<Rightarrow> mem" where
  "store_set clk key v ttlSeconds m =
     (let m1 = (if length (entries m) \<ge> maxSize
                then (case entries m of
                        [] \<Rightarrow> m
                      | (firstKey, _) # _ \<Rightarrow> m\<lparr>entries := AList.delete firstKey (entries m)\<rparr>)
                else m);
          (exp, m2) = (case truthy ttlSeconds of
                         None \<Rightarrow> (None, m1)
                       | Some ttl \<Rightarrow>
                           (let (now, m') = Date_now clk m1
                            in (Some (now + ttl * 1000), m')))
      in m2\<lparr>entries := AList.update key \<lparr>val = v, expiresAt = exp\<rparr> (entries m2)\<rparr>)"

definition store_incr :: "clock \<Rightarrow> jsstring \<Rightarrow> mem \<Rightarrow> int \<times> mem" where
  "store_incr clk key m =
     (let (current, m1) = store_get clk key m;
          newValue = (case current of None \<Rightarrow> 0 | Some v \<Rightarrow> v) + 1;
          (ttlSeconds, m2) =
            (case map_of (entries m1) key of
               None \<Rightarrow> (None, m1)
             | Some e \<Rightarrow>
                 (case truthy (expiresAt e) of
                    None \<Rightarrow> (None, m1)
                  | Some ex \<Rightarrow>
                      (let (now, m') = Date_now clk m1
                       in (Some (max 0 ((ex - now) div 1000)), m'))))
      in (newValue, store_set clk key newValue ttlSeconds m2))"

definition store_expire :: "clock \<Rightarrow> jsstring \<Rightarrow> int \<Rightarrow> mem \<Rightarrow> bool \<times> mem" where
  "store_expire clk key ttlSeconds m =
     (case map_of (entries m) key of
        None \<Rightarrow> (False, m)
      | Some e \<Rightarrow>
          (let (now, m1) = Date_now clk m
           in (True, m1\<lparr>entries :=
                 AList.update key (e\<lparr>expiresAt := Some (now + ttlSeconds * 1000)\<rparr>) (entries m1)\<rparr>)))"

text \<open>\<open>hincrby\<close> and \<open>hget\<close> address the field of a hash as the key \<open>key:field\<close>.\<close>

definition store_hincrby :: "clock \<Rightarrow> jsstring \<Rightarrow> jsstring \<Rightarrow> int \<Rightarrow> mem \<Rightarrow> int \<times> mem" where
  "store_hincrby clk key field increment m =
     (let hashKey = key @ js '':'' @ field;
          (current, m1) = store_get clk hashKey m;
          newValue = (case current of None \<Rightarrow> 0 | Some v \<Rightarrow> v) + increment
      in (newValue, store_set clk hashKey newValue None m1))"

definition store_hget :: "clock \<Rightarrow> jsstring \<Rightarrow> jsstring \<Rightarrow> mem \<Rightarrow> int option \<times> mem" where
  "store_hget clk key field m = store_get clk (key @ js '':'' @ field) m"

definition store_del :: "jsstring \<Rightarrow> mem \<Rightarrow> int \<times> mem" where
  "store_del key m =
     ((if map_of (entries m) key \<noteq> None then 1 else 0),
      m\<lparr>entries := AList.delete key (entries m)\<rparr>)"

section \<open>The session store (features/session/session.store.ts)\<close>

definition keyPrefix :: jsstring where
  "keyPrefix = js ''session:''"

definition riskPrefix :: jsstring where
  "riskPrefix = js ''risk:''"

definition session_get :: "clock \<Rightarrow> jsstring \<Rightarrow> jsstring \<Rightarrow> mem \<Rightarrow> int option \<times> mem" where
  "session_get clk sessionId field m = store_hget clk (keyPrefix @ sessionId) field m"

definition session_increment :: "clock \<Rightarrow> jsstring \<Rightarrow> jsstring \<Rightarrow> int \<Rightarrow> mem \<Rightarrow> int \<times> mem" where
  "session_increment clk sessionId field amount m =
     store_hincrby clk (keyPrefix @ sessionId) field amount m"

text \<open>
  \<open>pointsToAdd\<close> is a number as long as every weight read from \<open>PII_RISK_POINTS\<close> is one.
  \<open>Garbled\<close> is the string that \<open>+=\<close> produces once a non-number has been added (see
  \<open>assessRisk\<close> below); as a number it is \<open>NaN\<close>, so \<open>points > 1\<close> is false for it.
\<close>

datatype points = Num int | Garbled

fun incr_times :: "clock \<Rightarrow> jsstring \<Rightarrow> nat \<Rightarrow> mem \<Rightarrow> mem" where
  "incr_times clk key 0 m = m"
| "incr_times clk key (Suc n) m = incr_times clk key n (snd (store_incr clk key m))"

text \<open>\<open>Math.ceil(windowMs / 1000)\<close> on integers.\<close>

definition ceil_div_1000 :: "int \<Rightarrow> int" where
  "ceil_div_1000 ms = - ((- ms) div 1000)"

definition incrementRisk :: "clock \<Rightarrow> jsstring \<Rightarrow> points \<Rightarrow> int \<Rightarrow> mem \<Rightarrow> int \<times> mem" where
  "incrementRisk clk sessionId pts windowMs m =
     (let key = riskPrefix @ sessionId;
          (newScore, m1) = store_incr clk key m;
          m2 = (if newScore = 1
                then snd (store_expire clk key (ceil_div_1000 windowMs) m1)
                else m1)
      in case pts of
           Num p \<Rightarrow>
             if p > 1
             then (newScore + p - 1, incr_times clk key (nat (p - 1)) m2)
             else (newScore, m2)
         | Garbled \<Rightarrow> (newScore, m2))"

definition getRiskScore :: "clock \<Rightarrow> jsstring \<Rightarrow> mem \<Rightarrow> int \<times> mem" where
  "getRiskScore clk sessionId m =
     (let (score, m1) = store_get clk (riskPrefix @ sessionId) m
      in (case score of None \<Rightarrow> 0 | Some v \<Rightarrow> v, m1))"

definition isBanned :: "clock \<Rightarrow> jsstring \<Rightarrow> int \<Rightarrow> mem \<Rightarrow> bool \<times> mem" where
  "isBanned clk sessionId threshold m =
     (let (score, m1) = getRiskScore clk sessionId m in (score \<ge> threshold, m1))"

definition clearRisk :: "jsstring \<Rightarrow> mem \<Rightarrow> mem" where
  "clearRisk sessionId m = snd (store_del (riskPrefix @ sessionId) m)"

definition clearSession :: "jsstring \<Rightarrow> mem \<Rightarrow> mem" where
  "clearSession sessionId m =
     snd (store_del (riskPrefix @ sessionId) (snd (store_del (keyPrefix @ sessionId) m)))"

section \<open>PII types and the risk engine (shared/types/pii.types.ts, risk-engine.service.ts)\<close>

text \<open>
  \<open>PiiEntityType\<close> is a union of seventeen string literals, and TypeScript erases it: at
  run time \<open>entity.type\<close> is whatever value was put there. \<open>Lit s\<close> is the string \<open>s\<close>.
  The tables of the program are object literals, so a lookup \<open>table[key]\<close> also finds the
  members every object inherits from \<open>Object.prototype\<close>; \<open>Inherited k\<close> is the function
  or object found under the inherited key \<open>k\<close>. It is truthy, it is no string, and its
  conversion to a string names no property.
\<close>

datatype type_value = Lit jsstring | Inherited jsstring

definition Object_prototype_keys :: "jsstring list" where
  "Object_prototype_keys = map js
     [''constructor'', ''__defineGetter__'', ''__defineSetter__'', ''hasOwnProperty'',
      ''__lookupGetter__'', ''__lookupSetter__'', ''isPrototypeOf'', ''propertyIsEnumerable'',
      ''toString'', ''valueOf'', ''__proto__'', ''toLocaleString'']"

definition PII_ENTITY_TYPES :: "jsstring list" where
  "PII_ENTITY_TYPES = map js
     [''PERSON'', ''EMAIL'', ''PHONE'', ''ADDRESS'', ''SSN'', ''CREDIT_CARD'', ''BANK_ACCOUNT'',
      ''DATE_OF_BIRTH'', ''PASSPORT'', ''DRIVER_LICENSE'', ''IP_ADDRESS'', ''URL'', ''USERNAME'',
      ''PASSWORD'', ''MEDICAL_ID'', ''NATIONAL_ID'', ''TAX_ID'']"

record PiiEntity =
  e_type :: type_value
  e_text :: jsstring
  e_start :: int
  e_end :: int
  e_confidence :: real

definition PII_RISK_POINTS :: "(jsstring \<times> int) list" where
  "PII_RISK_POINTS =
     [(js ''PERSON'', 5), (js ''EMAIL'', 5), (js ''PHONE'', 10), (js ''ADDRESS'', 10),
      (js ''SSN'', 25), (js ''CREDIT_CARD'', 25), (js ''BANK_ACCOUNT'', 20),
      (js ''DATE_OF_BIRTH'', 5), (js ''PASSPORT'', 20), (js ''DRIVER_LICENSE'', 15),
      (js ''IP_ADDRESS'', 5), (js ''URL'', 2), (js ''USERNAME'', 5), (js ''PASSWORD'', 30),
      (js ''MEDICAL_ID'', 20), (js ''NATIONAL_ID'', 20), (js ''TAX_ID'', 20)]"

text \<open>
  \<open>PII_RISK_POINTS[entity.type] || 5\<close>. The property key is the type converted to a string.
  A key that names a member of \<open>Object.prototype\<close> reads that member, which is truthy and
  not a number: adding it turns \<open>pointsToAdd\<close> into a string (\<open>Garbled\<close>).
\<close>

definition risk_points :: "type_value \<Rightarrow> points" where
  "risk_points t =
     (case t of
        Lit s \<Rightarrow>
          (case map_of PII_RISK_POINTS s of
             Some n \<Rightarrow> if n = 0 then Num 5 else Num n
           | None \<Rightarrow> if s \<in> set Object_prototype_keys then Garbled else Num 5)
      | Inherited k \<Rightarrow> Num 5)"

fun add_points :: "points \<Rightarrow> points \<Rightarrow> points" where
  "add_points (Num a) (Num b) = Num (a + b)"
| "add_points _ _ = Garbled"

record RiskConfig =
  threshold :: int
  windowMs :: int

record RiskAssessment =
  r_score :: int
  r_isBanned :: bool
  r_pointsAdded :: points

definition assessRisk ::
  "clock \<Rightarrow> RiskConfig \<Rightarrow> jsstring \<Rightarrow> PiiEntity list \<Rightarrow> mem \<Rightarrow> RiskAssessment \<times> mem" where
  "assessRisk clk config sessionId entities m =
     (if length entities = 0 then
        (let (currentScore, m1) = getRiskScore clk sessionId m
         in (\<lparr>r_score = currentScore,
              r_isBanned = (currentScore \<ge> threshold config),
              r_pointsAdded = Num 0\<rparr>, m1))
      else
        (let pointsToAdd = foldl (\<lambda>acc entity. add_points acc (risk_points (e_type entity)))
                             (Num 0) entities;
             (newScore, m1) = incrementRisk clk sessionId pointsToAdd (windowMs config) m
         in (\<lparr>r_score = newScore,
              r_isBanned = (newScore \<ge> threshold config),
              r_pointsAdded = pointsToAdd\<rparr>, m1)))"

definition SessionService_isBanned :: "clock \<Rightarrow> RiskConfig \<Rightarrow> jsstring \<Rightarrow> mem \<Rightarrow> bool \<times> mem" where
  "SessionService_isBanned clk config sessionId m = isBanned clk sessionId (threshold config) m"

section \<open>String operations of the language\<close>

text \<open>
  \<open>slice\<close> with its two forms: a negative index counts from the end, every index is clamped
  to the string, and an empty string results when the end is not after the start.
\<close>

definition clamp_index :: "jsstring \<Rightarrow> int \<Rightarrow> nat" where
  "clamp_index s i =
     (if i < 0 then nat (max (int (length s) + i) 0) else min (nat i) (length s))"

definition slice :: "jsstring \<Rightarrow> int \<Rightarrow> int \<Rightarrow> jsstring" where
  "slice s a b = take (clamp_index s b - clamp_index s a) (drop (clamp_index s a) s)"

definition slice_from :: "jsstring \<Rightarrow> int \<Rightarrow> jsstring" where
  "slice_from s a = drop (clamp_index s a) s"

definition startsWith :: "jsstring \<Rightarrow> jsstring \<Rightarrow> bool" where
  "startsWith s p = (take (length p) s = p)"

text \<open>\<open>trim\<close> removes the white space and line terminators of the language at both ends.\<close>

definition isWhiteSpace :: "jschar \<Rightarrow> bool" where
  "isWhiteSpace c =
     (c \<in> set [0x9, 0xA, 0xB, 0xC, 0xD, 0x20, 0xA0, 0x1680, 0x2028, 0x2029, 0x202F, 0x205F,
               0x3000, 0xFEFF]
      \<or> (0x2000 \<le> c \<and> c \<le> 0x200A))"

definition trim :: "jsstring \<Rightarrow> jsstring" where
  "trim s = rev (dropWhile isWhiteSpace (rev (dropWhile isWhiteSpace s)))"

text \<open>
  \<open>s.indexOf(target, from)\<close>: the least index at or after \<open>from\<close> (clamped to the string) at
  which \<open>target\<close> occurs in \<open>s\<close>; \<open>None\<close> stands for \<open>-1\<close>.
\<close>

fun find_from :: "jsstring \<Rightarrow> jsstring \<Rightarrow> nat \<Rightarrow> nat option" where
  "find_from target [] i = (if target = [] then Some i else None)"
| "find_from target (c # cs) i =
     (if take (length target) (c # cs) = target then Some i
      else find_from target cs (Suc i))"

definition indexOf :: "jsstring \<Rightarrow> jsstring \<Rightarrow> nat \<Rightarrow> nat option" where
  "indexOf s target from =
     (let start = min from (length s) in find_from target (drop start s) start)"

text \<open>
  \<open>toLowerCase\<close> follows the case mappings of Unicode. The embedding carries the mappings of
  the Basic Latin and Latin-1 letters, and the one mapping of the standard whose result is
  longer than its argument: U+0130 (capital I with dot above) becomes the two code units
  U+0069 U+0307. Other code units are taken as they are.
\<close>

definition lower_unit :: "jschar \<Rightarrow> jsstring" where
  "lower_unit c =
     (if (0x41 \<le> c \<and> c \<le> 0x5A) \<or> (0xC0 \<le> c \<and> c \<le> 0xDE \<and> c \<noteq> 0xD7) then [c + 0x20]
      else if c = 0x130 then [0x69, 0x307]
      else [c])"

definition toLowerCase :: "jsstring \<Rightarrow> jsstring" where
  "toLowerCase s = concat (map lower_unit s)"

section \<open>The entity locator (engine/inference-runner.ts)\<close>

definition LABEL_TO_PII_TYPE :: "(jsstring \<times> jsstring) list" where
  "LABEL_TO_PII_TYPE =
     [(js ''ACCOUNTNUM'', js ''BANK_ACCOUNT''), (js ''BUILDINGNUM'', js ''ADDRESS''),
      (js ''CITY'', js ''ADDRESS''), (js ''CREDITCARDNUMBER'', js ''CREDIT_CARD''),
      (js ''DATEOFBIRTH'', js ''DATE_OF_BIRTH''), (js ''DRIVERLICENSENUM'', js ''DRIVER_LICENSE''),
      (js ''EMAIL'', js ''EMAIL''), (js ''GIVENNAME'', js ''PERSON''),
      (js ''IDCARDNUM'', js ''NATIONAL_ID''), (js ''PASSWORD'', js ''PASSWORD''),
      (js ''SOCIALNUM'', js ''SSN''), (js ''STREET'', js ''ADDRESS''),
      (js ''SURNAME'', js ''PERSON''), (js ''TAXNUM'', js ''TAX_ID''),
      (js ''TELEPHONENUM'', js ''PHONE''), (js ''USERNAME'', js ''USERNAME''),
      (js ''ZIPCODE'', js ''ADDRESS'')]"

text \<open>
  \<open>LABEL_TO_PII_TYPE[label]\<close>: an entry of the table, or a member inherited from
  \<open>Object.prototype\<close>, or \<open>undefined\<close> (\<open>None\<close>). Every value found is truthy.
\<close>

definition label_type :: "jsstring \<Rightarrow> type_value option" where
  "label_type label =
     (case map_of LABEL_TO_PII_TYPE label of
        Some t \<Rightarrow> Some (Lit t)
      | None \<Rightarrow> if label \<in> set Object_prototype_keys then Some (Inherited label) else None)"

record RawToken =
  tk_entity :: jsstring
  tk_word :: jsstring
  tk_score :: real
  tk_index :: int

record group =
  g_label :: jsstring
  g_words :: "jsstring list"
  g_scores :: "real list"
  g_lastIdx :: int

definition parseLabel :: "jsstring \<Rightarrow> jsstring option" where
  "parseLabel entity =
     (if entity = [] \<or> entity = js ''O'' then None
      else if startsWith entity (js ''B-'') \<or> startsWith entity (js ''I-'')
           then Some (slice_from entity 2)
      else Some entity)"

text \<open>\<open>usedRanges.some(([s, e]) => start < e && end > s)\<close>\<close>

definition overlaps_used :: "(int \<times> int) list \<Rightarrow> int \<Rightarrow> int \<Rightarrow> bool" where
  "overlaps_used usedRanges start end = list_ex (\<lambda>(s, e). start < e \<and> end > s) usedRanges"

lemma find_from_ge: "find_from target cs i = Some k \<Longrightarrow> i \<le> k"
proof (induction cs arbitrary: i)
  case Nil
  then show ?case by (simp split: if_splits)
next
  case (Cons c cs)
  show ?case
  proof (cases "take (length target) (c # cs) = target")
    case True
    then show ?thesis using Cons.prems by simp
  next
    case False
    then have "find_from target cs (Suc i) = Some k" using Cons.prems by simp
    then have "Suc i \<le> k" by (rule Cons.IH)
    then show ?thesis by simp
  qed
qed

lemma indexOf_ge: "indexOf s target from = Some k \<Longrightarrow> min from (length s) \<le> k"
  by (auto simp: indexOf_def Let_def dest: find_from_ge)

lemma length_toLowerCase: "length s \<le> length (toLowerCase s)"
  by (induction s) (auto simp: toLowerCase_def lower_unit_def)

text \<open>
  The loop of \<open>findPosition\<close>, entered with the value of \<open>from\<close>. \<open>lower\<close> and \<open>target\<close> are
  the lower-case forms of the text and of the string searched for.
\<close>

function findPosition_loop ::
  "jsstring \<Rightarrow> jsstring \<Rightarrow> (int \<times> int) list \<Rightarrow> nat \<Rightarrow> (int \<times> int) option" where
  "findPosition_loop search text usedRanges from =
     (if from < length text then
        (case indexOf (toLowerCase text) (toLowerCase search) from of
           None \<Rightarrow> None
         | Some start \<Rightarrow>
             (let end = start + length search in
              if \<not> overlaps_used usedRanges (int start) (int end)
              then Some (int start, int end)
              else findPosition_loop search text usedRanges (start + 1)))
      else None)"
  by pat_completeness auto
termination
  apply (relation "measure (\<lambda>(s, t, u, f). length t - f)")
   apply simp
  subgoal for s t u f start
    using indexOf_ge[of "toLowerCase t" "toLowerCase s" f start] length_toLowerCase[of t]
    by simp
  done

declare findPosition_loop.simps [simp del]

definition findPosition :: "jsstring \<Rightarrow> jsstring \<Rightarrow> (int \<times> int) list \<Rightarrow> (int \<times> int) option" where
  "findPosition search text usedRanges = findPosition_loop search text usedRanges 0"

text \<open>The loop that joins the words of a group.\<close>

definition join_word :: "jsstring \<Rightarrow> jsstring \<Rightarrow> jsstring" where
  "join_word joined w =
     (if startsWith w (js ''##'') then joined @ slice_from w 2
      else if startsWith w (js '' '') then joined @ (if joined \<noteq> [] then w else slice_from w 1)
      else joined @ w)"

definition finalizeGroup :: "group \<Rightarrow> jsstring \<Rightarrow> (int \<times> int) list \<Rightarrow> PiiEntity option" where
  "finalizeGroup grp text usedRanges =
     (case label_type (g_label grp) of
        None \<Rightarrow> None
      | Some piiType \<Rightarrow>
          (let joined = trim (foldl join_word [] (g_words grp)) in
           if length joined < 2 then None
           else (case findPosition joined text usedRanges of
                   None \<Rightarrow> None
                 | Some (start, end) \<Rightarrow>
                     Some \<lparr>e_type = piiType,
                           e_text = slice text start end,
                           e_start = start,
                           e_end = end,
                           e_confidence = sum_list (g_scores grp) / real (length (g_scores grp))\<rparr>)))"

text \<open>
  The state of the loop over the tokens: the entities found, the ranges in use and the group
  being built. \<open>close_group\<close> is the block that finalizes the current group and records the
  entity, \<open>new_group\<close> is the group opened by a token, \<open>locate_step\<close> is one turn of the
  loop. With no group, \<open>hasGap\<close> is falsy and a group is opened.
\<close>

record locator =
  l_entities :: "PiiEntity list"
  l_usedRanges :: "(int \<times> int) list"
  l_group :: "group option"

definition close_group :: "jsstring \<Rightarrow> locator \<Rightarrow> locator" where
  "close_group text st =
     (case l_group st of
        None \<Rightarrow> st
      | Some grp \<Rightarrow>
          (case finalizeGroup grp text (l_usedRanges st) of
             None \<Rightarrow> st
           | Some entity \<Rightarrow>
               st\<lparr>l_entities := l_entities st @ [entity],
                  l_usedRanges := l_usedRanges st @ [(e_start entity, e_end entity)]\<rparr>))"

definition new_group :: "jsstring \<Rightarrow> RawToken \<Rightarrow> group" where
  "new_group label token =
     \<lparr>g_label = label, g_words = [tk_word token], g_scores = [tk_score token],
      g_lastIdx = tk_index token\<rparr>"

definition locate_step :: "jsstring \<Rightarrow> locator \<Rightarrow> RawToken \<Rightarrow> locator" where
  "locate_step text st token =
     (case parseLabel (tk_entity token) of
        None \<Rightarrow> (close_group text st)\<lparr>l_group := None\<rparr>
      | Some label \<Rightarrow>
          if label = [] \<or> label_type label = None then
            (close_group text st)\<lparr>l_group := None\<rparr>
          else
            (case l_group st of
               None \<Rightarrow> st\<lparr>l_group := Some (new_group label token)\<rparr>
             | Some grp \<Rightarrow>
                 (let hasGap = (tk_index token > g_lastIdx grp + 1) in
                  if g_label grp \<noteq> label \<or> hasGap then
                    (close_group text st)\<lparr>l_group := Some (new_group label token)\<rparr>
                  else
                    st\<lparr>l_group := Some (grp\<lparr>g_words := g_words grp @ [tk_word token],
                                            g_scores := g_scores grp @ [tk_score token],
                                            g_lastIdx := tk_index token\<rparr>)\<rparr>)))"

text \<open>
  After the loop the last group is finalized and its entity appended; the ranges in use are
  not read again.
\<close>

definition groupAndLocateEntities :: "RawToken list \<Rightarrow> jsstring \<Rightarrow> PiiEntity list" where
  "groupAndLocateEntities tokens text =
     (let st = foldl (locate_step text) \<lparr>l_entities = [], l_usedRanges = [], l_group = None\<rparr> tokens
      in case l_group st of
           None \<Rightarrow> l_entities st
         | Some grp \<Rightarrow>
             (case finalizeGroup grp text (l_usedRanges st) of
                None \<Rightarrow> l_entities st
              | Some entity \<Rightarrow> l_entities st @ [entity]))"

section \<open>The replacement generator (features/redaction/replacement.utils.ts)\<close>

text \<open>
  \<open>getDeterministicReplacement\<close> calls two libraries: \<open>createHmac\<close> of \<open>node:crypto\<close> and the
  process-wide \<open>faker\<close> instance. Neither is part of the program, so the embedding takes them
  as a record of functions \<open>X\<close>, one field for each member the program calls:
  \<^item> \<open>createHmac_sha256 key message\<close> is the digest, a 256-bit word; \<open>digest('hex')\<close> writes
    it as 64 hexadecimal digits, and \<open>parseInt(hash.substring(0, 8), 16)\<close> reads the first
    eight back, which are the top 32 bits (\<open>seed_of_digest\<close>);
  \<^item> \<open>faker\<close> owns a pseudo-random generator whose state has the type \<open>'g\<close>;
    \<open>faker_seed n\<close> is the state after \<open>faker.seed(n)\<close>, and every generating member maps a
    state to the value it returns and the state it leaves;
  \<^item> \<open>faker.date.birthdate\<close> is called without a \<open>refDate\<close>, so the library computes the
    range of dates back from the current time: the field takes that clock reading
    as an argument beside \<open>min\<close> and \<open>max\<close>, and returns the date as a time value;
  \<^item> \<open>toLocaleDateString_enUS\<close> formats a time value in the time zone of the host.
\<close>

record 'g externals =
  createHmac_sha256 :: "jsstring \<Rightarrow> jsstring \<Rightarrow> 256 word"
  faker_seed :: "32 word \<Rightarrow> 'g"
  person_fullName :: "'g \<Rightarrow> jsstring \<times> 'g"
  internet_email :: "'g \<Rightarrow> jsstring \<times> 'g"
  phone_number :: "'g \<Rightarrow> jsstring \<times> 'g"
  location_streetAddress :: "'g \<Rightarrow> jsstring \<times> 'g"
  string_numeric :: "nat \<Rightarrow> 'g \<Rightarrow> jsstring \<times> 'g"
  finance_accountNumber :: "'g \<Rightarrow> jsstring \<times> 'g"
  date_birthdate_age :: "int \<Rightarrow> int \<Rightarrow> int \<Rightarrow> 'g \<Rightarrow> int \<times> 'g"
  toLocaleDateString_enUS :: "int \<Rightarrow> jsstring"
  string_alpha_upper :: "nat \<Rightarrow> 'g \<Rightarrow> jsstring \<times> 'g"
  internet_ipv4 :: "'g \<Rightarrow> jsstring \<times> 'g"
  internet_url :: "'g \<Rightarrow> jsstring \<times> 'g"
  internet_username :: "'g \<Rightarrow> jsstring \<times> 'g"

definition seed_of_digest :: "256 word \<Rightarrow> 32 word" where
  "seed_of_digest hash = ucast (drop_bit 224 hash)"

text \<open>
  The arguments \<open>now\<close> and \<open>g0\<close> are the state of the host at the call: the clock reading and
  the state in which earlier calls left the generator of \<open>faker\<close>. The result is the returned
  string and the state of the generator after the call. A template literal evaluates its
  parts from left to right.
\<close>

definition getDeterministicReplacement ::
  "'g externals \<Rightarrow> int \<Rightarrow> 'g \<Rightarrow> jsstring \<Rightarrow> type_value \<Rightarrow> jsstring \<Rightarrow> jsstring \<times> 'g" where
  "getDeterministicReplacement X now g0 originalText type salt =
     (let hash = createHmac_sha256 X salt originalText;
          seed = seed_of_digest hash;
          g = faker_seed X seed
      in
      if type = Lit (js ''PERSON'') then person_fullName X g
      else if type = Lit (js ''EMAIL'') then internet_email X g
      else if type = Lit (js ''PHONE'') then phone_number X g
      else if type = Lit (js ''ADDRESS'') then location_streetAddress X g
      else if type = Lit (js ''SSN'') then
        (let (a, g1) = string_numeric X 3 g;
             (b, g2) = string_numeric X 2 g1;
             (c, g3) = string_numeric X 4 g2
         in (a @ js ''-'' @ b @ js ''-'' @ c, g3))
      else if type = Lit (js ''CREDIT_CARD'') then
        (let (a, g1) = string_numeric X 4 g;
             (b, g2) = string_numeric X 4 g1;
             (c, g3) = string_numeric X 4 g2;
             (d, g4) = string_numeric X 4 g3
         in (a @ js ''-'' @ b @ js ''-'' @ c @ js ''-'' @ d, g4))
      else if type = Lit (js ''BANK_ACCOUNT'') then finance_accountNumber X g
      else if type = Lit (js ''DATE_OF_BIRTH'') then
        (let (date, g1) = date_birthdate_age X 18 80 now g
         in (toLocaleDateString_enUS X date, g1))
      else if type = Lit (js ''PASSPORT'') then
        (let (a, g1) = string_alpha_upper X 2 g;
             (b, g2) = string_numeric X 7 g1
         in (a @ b, g2))
      else if type = Lit (js ''DRIVER_LICENSE'') then
        (let (a, g1) = string_alpha_upper X 1 g;
             (b, g2) = string_numeric X 7 g1
         in (a @ b, g2))
      else if type = Lit (js ''IP_ADDRESS'') then internet_ipv4 X g
      else if type = Lit (js ''URL'') then internet_url X g
      else if type = Lit (js ''USERNAME'') then
        (let (a, g1) = internet_username X g in (js ''@'' @ a, g1))
      else if type = Lit (js ''PASSWORD'') then (js ''[REDACTED_PASSWORD]'', g)
      else if type = Lit (js ''MEDICAL_ID'') then
        (let (a, g1) = string_numeric X 8 g in (js ''MED'' @ a, g1))
      else if type = Lit (js ''NATIONAL_ID'') then string_numeric X 10 g
      else if type = Lit (js ''TAX_ID'') then
        (let (a, g1) = string_numeric X 2 g;
             (b, g2) = string_numeric X 7 g1
         in (a @ js ''-'' @ b, g2))
      else (js ''[REDACTED]'', g))"

text \<open>
  \<open>`[${type}]`\<close> converts the type to a string. A member inherited from \<open>Object.prototype\<close>
  prints as native code does (\<open>Object.prototype.constructor\<close> is the function \<open>Object\<close>), and
  \<open>Object.prototype\<close> itself, found under \<open>__proto__\<close>, prints as \<open>[object Object]\<close>.
\<close>

definition String_of :: "type_value \<Rightarrow> jsstring" where
  "String_of t =
     (case t of
        Lit s \<Rightarrow> s
      | Inherited k \<Rightarrow>
          if k = js ''__proto__'' then js ''[object Object]''
          else js ''function '' @ (if k = js ''constructor'' then js ''Object'' else k)
                 @ js ''() { [native code] }'')"

definition getSimpleRedaction :: "type_value \<Rightarrow> jsstring" where
  "getSimpleRedaction type = js ''['' @ String_of type @ js '']''"

section \<open>The redaction service (features/redaction/redaction.service.ts)\<close>

datatype fail_strategy = Closed | Open

record RedactionOptions =
  useDeterministicReplacement :: bool
  salt :: jsstring
  timeoutMs :: int
  failStrategy :: fail_strategy

text \<open>
  What the program throws: the \<open>InferenceTimeoutError\<close> it defines, which carries the timeout,
  or any other value (\<open>Thrown\<close>, with its message).
\<close>

datatype error = InferenceTimeoutError int | Thrown jsstring

record RedactionResult =
  rr_text :: jsstring
  rr_entities :: "PiiEntity list"
  rr_processingTimeMs :: int

record InferenceResult =
  ir_entities :: "PiiEntity list"
  ir_processingTimeMs :: int

text \<open>
  A promise settles fulfilled or rejected. The model behind \<open>modelSession.pipeline\<close> is not
  part of the program: what it answers for one call, and whether it answers before the timer
  of \<open>runWithTimeout\<close> fires, is an input of the embedding. \<open>First p\<close> says that the promise
  settled as \<open>p\<close> before the timer, \<open>Timer\<close> that the timer fired first. The answer of the
  pipeline comes with the time \<open>Date.now() - startTime\<close> that \<open>runInference\<close> measures.
\<close>

datatype 'a settled = Fulfilled 'a | Rejected error

datatype 'a raced = First "'a settled" | Timer

definition runInference :: "(RawToken list \<times> int) settled \<Rightarrow> jsstring \<Rightarrow> InferenceResult settled" where
  "runInference pipeline text =
     (case pipeline of
        Rejected e \<Rightarrow> Rejected e
      | Fulfilled (tokens, elapsed) \<Rightarrow>
          Fulfilled \<lparr>ir_entities = groupAndLocateEntities tokens text,
                     ir_processingTimeMs = elapsed\<rparr>)"

definition runWithTimeout :: "'a raced \<Rightarrow> int \<Rightarrow> 'a settled" where
  "runWithTimeout race ms =
     (case race of
        First result \<Rightarrow> result
      | Timer \<Rightarrow> Rejected (InferenceTimeoutError ms))"

text \<open>
  The replacement of one entity, one turn of the loop of \<open>applyRedactions\<close>
  (\<open>redact_one\<close>), and the loop over the entities sorted by descending start
  (\<open>Array.prototype.sort\<close> is stable, as \<open>sort_key\<close> is). The loop runs without
  interruption, so one clock reading \<open>now\<close> serves the whole call; the generator state of
  \<open>faker\<close> is handed from one replacement to the next.
\<close>

definition replacement_of ::
  "'g externals \<Rightarrow> RedactionOptions \<Rightarrow> int \<Rightarrow> 'g \<Rightarrow> PiiEntity \<Rightarrow> jsstring \<times> 'g" where
  "replacement_of X options now g entity =
     (if useDeterministicReplacement options
      then getDeterministicReplacement X now g (e_text entity) (e_type entity) (salt options)
      else (getSimpleRedaction (e_type entity), g))"

definition redact_one ::
  "'g externals \<Rightarrow> RedactionOptions \<Rightarrow> int \<Rightarrow> jsstring \<times> 'g \<Rightarrow> PiiEntity \<Rightarrow> jsstring \<times> 'g" where
  "redact_one X options now state entity =
     (let (result, g) = state;
          (replacement, g') = replacement_of X options now g entity
      in (slice result 0 (e_start entity) @ replacement @ slice_from result (e_end entity), g'))"

definition applyRedactions ::
  "'g externals \<Rightarrow> RedactionOptions \<Rightarrow> int \<Rightarrow> 'g \<Rightarrow> jsstring \<Rightarrow> PiiEntity list \<Rightarrow> jsstring \<times> 'g" where
  "applyRedactions X options now g text entities =
     (let sortedEntities = sort_key (\<lambda>e. - e_start e) entities
      in foldl (redact_one X options now) (text, g) sortedEntities)"

text \<open>
  \<open>redact\<close>. The value \<open>race\<close> is the outcome of the race between the pipeline's promise for
  this text and the timer. The result is what the returned promise settles to (\<open>Inl\<close> the
  error it rejects with), and the generator state of \<open>faker\<close> after the call.
\<close>

definition redact ::
  "'g externals \<Rightarrow> RedactionOptions \<Rightarrow> int \<Rightarrow> (RawToken list \<times> int) raced \<Rightarrow> 'g \<Rightarrow> jsstring
     \<Rightarrow> (error + RedactionResult) \<times> 'g" where
  "redact X options now race g text =
     (if text = [] \<or> length (trim text) = 0 then
        (Inr \<lparr>rr_text = text, rr_entities = [], rr_processingTimeMs = 0\<rparr>, g)
      else
        (case runWithTimeout
                (case race of First p \<Rightarrow> First (runInference p text) | Timer \<Rightarrow> Timer)
                (timeoutMs options) of
           Fulfilled detection \<Rightarrow>
             if length (ir_entities detection) = 0 then
               (Inr \<lparr>rr_text = text, rr_entities = [],
                     rr_processingTimeMs = ir_processingTimeMs detection\<rparr>, g)
             else
               (let (redactedText, g') =
                      applyRedactions X options now g text (ir_entities detection)
                in (Inr \<lparr>rr_text = redactedText, rr_entities = ir_entities detection,
                         rr_processingTimeMs = ir_processingTimeMs detection\<rparr>, g'))
         | Rejected err \<Rightarrow>
             (case err of
                InferenceTimeoutError ms \<Rightarrow>
                  if failStrategy options = Closed then (Inl err, g)
                  else (Inr \<lparr>rr_text = text, rr_entities = [],
                              rr_processingTimeMs = timeoutMs options\<rparr>, g)
              | Thrown msg \<Rightarrow> (Inl err, g))))"

definition detect :: "(RawToken list \<times> int) settled \<Rightarrow> jsstring \<Rightarrow> InferenceResult settled" where
  "detect pipeline text =
     (if text = [] \<or> length (trim text) = 0
      then Fulfilled \<lparr>ir_entities = [], ir_processingTimeMs = 0\<rparr>
      else runInference pipeline text)"

section \<open>The streaming transformer (features/proxy/stream.transformer.ts)\<close>

text \<open>
  \<open>PiiRedactionStream\<close> is a \<open>Transform\<close> stream: the host calls \<open>_transform\<close> once for each
  chunk of the upstream response, one call after the other, and \<open>_flush\<close> at the end of the
  input; the timer set by \<open>scheduleFlush\<close> may fire between two calls. The embedding starts
  from the chunk as a string (\<open>chunk.toString('utf-8')\<close>) and runs each call, and each firing
  of the timer, to its end before the next begins.

  \<open>JSON.parse\<close> is a function of the host and a parameter \<open>parse\<close> of the embedding. Its
  result is read at the type the program casts it to, \<open>OpenAiChatCompletionChunk\<close>, of which
  the records below keep the members the program reads; an absent member and \<open>null\<close> are
  \<open>None\<close>, also as an element of \<open>choices\<close>, and \<open>parse\<close> answers \<open>None\<close> where
  \<open>JSON.parse\<close> throws. The redaction service
  is the parameter \<open>svc\<close>: it maps the state of its world and a text to what \<open>redact\<close>
  settles to and the state it leaves.
\<close>

record StreamTransformerOptions =
  maxTokens :: int
  maxDelayMs :: int


record OpenAiDelta =
  delta_role :: "jsstring option"
  delta_content :: "jsstring option"

record OpenAiChunkChoice =
  choice_index :: "int option"
  choice_delta :: "OpenAiDelta option"

record OpenAiChunk =
  chunk_id :: "jsstring option"
  chunk_model :: "jsstring option"
  chunk_created :: "int option"
  chunk_choices :: "OpenAiChunkChoice option list option"

record meta =
  meta_id :: "jsstring option"
  meta_model :: "jsstring option"
  meta_created :: "int option"
  meta_index :: "int option"
  meta_role :: "jsstring option"

text \<open>
  What \<open>push\<close> hands downstream: a string passed through (\<open>Raw\<close>), or the frame
  \<open>data: ${JSON.stringify(response)}\n\n\<close> that \<open>formatAsOpenAiSSE\<close> builds, kept as the
  object it serializes (\<open>Delta\<close>).
\<close>

record frame =
  f_id :: "jsstring option"
  f_created :: "int option"
  f_model :: "jsstring option"
  f_index :: int
  f_role :: "jsstring option"
  f_content :: jsstring

datatype pushed_chunk = Raw jsstring | Delta frame

text \<open>
  The fields of the class, the chunks pushed so far, the state of the world of the redaction
  service, and the number of clock readings made. \<open>sent\<close> is a history variable, not a
  field of the class: the texts handed to \<open>redact\<close> so far, in order.
\<close>

record 'w stream =
  buffer :: jsstring
  tokenCount :: int
  lastFlushTime :: int
  flushTimer :: bool
  lineBuffer :: jsstring
  lastMeta :: meta
  roleEmitted :: bool
  pushed :: "pushed_chunk list"
  world :: 'w
  clock_reads :: nat
  sent :: "jsstring list"

type_synonym 'w redaction_service = "'w \<Rightarrow> jsstring \<Rightarrow> (error + RedactionResult) \<times> 'w"


definition push :: "pushed_chunk \<Rightarrow> 'w stream \<Rightarrow> 'w stream" where
  "push c st = st\<lparr>pushed := pushed st @ [c]\<rparr>"

text \<open>\<open>a ?? b\<close>\<close>

definition nullish :: "'a option \<Rightarrow> 'a option \<Rightarrow> 'a option" where
  "nullish a b = (case a of Some v \<Rightarrow> Some v | None \<Rightarrow> b)"

definition extractDeltaContent :: "OpenAiChunk \<Rightarrow> 'w stream \<Rightarrow> jsstring \<times> 'w stream" where
  "extractDeltaContent data st =
     (case chunk_choices data of
        None \<Rightarrow> ([], st)
      | Some [] \<Rightarrow> ([], st)
      | Some (None # others) \<Rightarrow> ([], st)
      | Some (Some choice # others) \<Rightarrow>
          (let st1 = st\<lparr>lastMeta :=
                 \<lparr>meta_id = nullish (chunk_id data) (meta_id (lastMeta st)),
                  meta_model = nullish (chunk_model data) (meta_model (lastMeta st)),
                  meta_created = nullish (chunk_created data) (meta_created (lastMeta st)),
                  meta_index = nullish (choice_index choice) (meta_index (lastMeta st)),
                  meta_role = nullish (case choice_delta choice of
                                         None \<Rightarrow> None | Some d \<Rightarrow> delta_role d)
                                      (meta_role (lastMeta st))\<rparr>\<rparr>
           in case choice_delta choice of
                None \<Rightarrow> ([], st1)
              | Some d \<Rightarrow> (case delta_content d of None \<Rightarrow> ([], st1) | Some c \<Rightarrow> (c, st1))))"

text \<open>
  \<open>SENTENCE_BOUNDARY = /[.!?]\s+|[.!?]$/\<close>, tested against the whole buffer: somewhere a
  full stop, exclamation mark or question mark is followed by white space or by the end.
  The class \<open>\s\<close> is the white space that \<open>trim\<close> removes.
\<close>

definition isTerminal :: "jschar \<Rightarrow> bool" where
  "isTerminal c = (c = 0x2E \<or> c = 0x21 \<or> c = 0x3F)"

fun SENTENCE_BOUNDARY_test :: "jsstring \<Rightarrow> bool" where
  "SENTENCE_BOUNDARY_test [] = False"
| "SENTENCE_BOUNDARY_test [c] = isTerminal c"
| "SENTENCE_BOUNDARY_test (c # d # cs) =
     ((isTerminal c \<and> isWhiteSpace d) \<or> SENTENCE_BOUNDARY_test (d # cs))"

text \<open>\<open>Math.ceil(text.length / 4)\<close>\<close>

definition estimateTokens :: "jsstring \<Rightarrow> int" where
  "estimateTokens tx = int ((length tx + 3) div 4)"

text \<open>The clock is read only when the two tests before it are false.\<close>

definition shouldFlush :: "clock \<Rightarrow> StreamTransformerOptions \<Rightarrow> 'w stream \<Rightarrow> bool \<times> 'w stream" where
  "shouldFlush clk options st =
     (if SENTENCE_BOUNDARY_test (buffer st) then (True, st)
      else if tokenCount st \<ge> maxTokens options then (True, st)
      else (clk (clock_reads st) - lastFlushTime st \<ge> maxDelayMs options,
            st\<lparr>clock_reads := Suc (clock_reads st)\<rparr>))"


definition formatAsOpenAiSSE :: "jsstring \<Rightarrow> 'w stream \<Rightarrow> frame \<times> 'w stream" where
  "formatAsOpenAiSSE tx st =
     (let emitRole = (case meta_role (lastMeta st) of None \<Rightarrow> False | Some r \<Rightarrow> r \<noteq> [])
                     \<and> \<not> roleEmitted st
      in (\<lparr>f_id = meta_id (lastMeta st),
           f_created = meta_created (lastMeta st),
           f_model = meta_model (lastMeta st),
           f_index = (case meta_index (lastMeta st) of None \<Rightarrow> 0 | Some i \<Rightarrow> i),
           f_role = (if emitRole then meta_role (lastMeta st) else None),
           f_content = tx\<rparr>,
          if emitRole then st\<lparr>roleEmitted := True\<rparr> else st))"

text \<open>
  \<open>flushBuffer\<close>: the buffer is taken and emptied before \<open>redact\<close> is awaited. The first
  component of the result is the error the call rejects with, if any.
\<close>

definition flushBuffer :: "clock \<Rightarrow> 'w redaction_service \<Rightarrow> 'w stream \<Rightarrow> error option \<times> 'w stream" where
  "flushBuffer clk svc st =
     (if length (buffer st) = 0 then (None, st)
      else
        (let textToProcess = buffer st;
             st1 = st\<lparr>buffer := [], tokenCount := 0,
                      lastFlushTime := clk (clock_reads st),
                      clock_reads := Suc (clock_reads st),
                      sent := sent st @ [textToProcess]\<rparr>;
             (result, w) = svc (world st1) textToProcess;
             st2 = st1\<lparr>world := w\<rparr>
         in case result of
              Inl err \<Rightarrow> (Some err, st2)
            | Inr r \<Rightarrow>
                (let (sseData, st3) = formatAsOpenAiSSE (rr_text r) st2
                 in (None, push (Delta sseData) st3))))"

text \<open>The terminator frame \<open>data: [DONE]\n\n\<close>, and \<open>rawLine.replace(/\r$/, '')\<close>.\<close>

definition DONE_frame :: jsstring where
  "DONE_frame = js (''data: [DONE]'' @ [CHR 0x0A, CHR 0x0A])"

definition strip_cr :: "jsstring \<Rightarrow> jsstring" where
  "strip_cr rawLine = (if rawLine \<noteq> [] \<and> last rawLine = 0xD then butlast rawLine else rawLine)"

text \<open>
  One turn of the loop over the lines. The \<open>try\<close> around \<open>JSON.parse\<close> also encloses the
  \<open>await this.flushBuffer()\<close> of that branch: an error of that flush is caught there, and the
  line is pushed as it came. The flush before \<open>[DONE]\<close> stands outside that \<open>try\<close>.
\<close>

definition process_line ::
  "clock \<Rightarrow> StreamTransformerOptions \<Rightarrow> (jsstring \<Rightarrow> OpenAiChunk option) \<Rightarrow> 'w redaction_service
     \<Rightarrow> 'w stream \<Rightarrow> jsstring \<Rightarrow> error option \<times> 'w stream" where
  "process_line clk options parse svc st rawLine =
     (let line = strip_cr rawLine in
      if \<not> startsWith line (js ''data:'') then
        (None, push (Raw (if line = [] then js [CHR 0x0A] else line @ js [CHR 0x0A])) st)
      else
        (let jsonStr = trim (slice_from line 5) in
         if jsonStr = js ''[DONE]'' then
           (case flushBuffer clk svc st of
              (Some err, st1) \<Rightarrow> (Some err, st1)
            | (None, st1) \<Rightarrow> (None, push (Raw DONE_frame) st1))
         else
           (case parse jsonStr of
              None \<Rightarrow> (None, push (Raw (line @ js [CHR 0x0A])) st)
            | Some data \<Rightarrow>
                (let (content, st1) = extractDeltaContent data st in
                 if content \<noteq> [] then
                   (let st2 = st1\<lparr>buffer := buffer st1 @ content,
                                  tokenCount := tokenCount st1 + estimateTokens content\<rparr>;
                        (should, st3) = shouldFlush clk options st2
                    in if should then
                         (case flushBuffer clk svc st3 of
                            (Some err, st4) \<Rightarrow> (None, push (Raw (line @ js [CHR 0x0A])) st4)
                          | (None, st4) \<Rightarrow> (None, st4))
                       else (None, st3))
                 else (None, push (Raw (line @ js [CHR 0x0A])) st1)))))"









section \<open>Notions used to state the properties\<close>

subsection \<open>The store as a reader sees it\<close>

text \<open>
  \<open>live_entry now es key\<close> is the entry a \<open>get\<close> at time \<open>now\<close> answers from: an entry whose
  expiry has passed is no longer there for any reader, whether or not it has been removed from
  the \<open>Map\<close> yet. \<open>current_score\<close> is the score of a session read that way, \<open>expired\<close> says
  that the entry of a key is still in the \<open>Map\<close> but past its expiry at the next clock reading.
\<close>

definition live_entry :: "int \<Rightarrow> (jsstring \<times> entry) list \<Rightarrow> jsstring \<Rightarrow> entry option" where
  "live_entry now es key =
     (case map_of es key of
        None \<Rightarrow> None
      | Some e \<Rightarrow> (case truthy (expiresAt e) of
                    None \<Rightarrow> Some e
                  | Some ex \<Rightarrow> if now > ex then None else Some e))"

definition current_score :: "int \<Rightarrow> mem \<Rightarrow> jsstring \<Rightarrow> int" where
  "current_score now m sessionId =
     (case live_entry now (entries m) (riskPrefix @ sessionId) of None \<Rightarrow> 0 | Some e \<Rightarrow> val e)"

definition expired :: "clock \<Rightarrow> jsstring \<Rightarrow> mem \<Rightarrow> bool" where
  "expired clk key m =
     (case map_of (entries m) key of
        None \<Rightarrow> False
      | Some e \<Rightarrow> (case truthy (expiresAt e) of None \<Rightarrow> False | Some ex \<Rightarrow> clk (reads m) > ex))"

definition keys :: "mem \<Rightarrow> jsstring set" where
  "keys m = fst ` set (entries m)"

subsection \<open>Histories of calls on the session store\<close>

text \<open>
  A history is the list of calls made on one \<open>SessionStore\<close> since the store was created
  empty (\<open>fresh\<close>). \<open>increments sid c\<close> says that the call \<open>c\<close> is \<open>incrementRisk\<close> on the
  session \<open>sid\<close>.
\<close>

datatype session_call =
    Call_get jsstring jsstring
  | Call_increment jsstring jsstring int
  | Call_incrementRisk jsstring points int
  | Call_getRiskScore jsstring
  | Call_isBanned jsstring int
  | Call_clearRisk jsstring
  | Call_clearSession jsstring

fun perform :: "clock \<Rightarrow> mem \<Rightarrow> session_call \<Rightarrow> mem" where
  "perform clk m (Call_get sid field) = snd (session_get clk sid field m)"
| "perform clk m (Call_increment sid field amount) = snd (session_increment clk sid field amount m)"
| "perform clk m (Call_incrementRisk sid pts w) = snd (incrementRisk clk sid pts w m)"
| "perform clk m (Call_getRiskScore sid) = snd (getRiskScore clk sid m)"
| "perform clk m (Call_isBanned sid th) = snd (isBanned clk sid th m)"
| "perform clk m (Call_clearRisk sid) = clearRisk sid m"
| "perform clk m (Call_clearSession sid) = clearSession sid m"

fun increments :: "jsstring \<Rightarrow> session_call \<Rightarrow> bool" where
  "increments sid (Call_incrementRisk sid' pts w) = (sid' = sid)"
| "increments sid _ = False"

definition fresh :: mem where
  "fresh = \<lparr>entries = [], reads = 0\<rparr>"

subsection \<open>Risk weights as the specification lists them\<close>

text \<open>
  The weight of a type is its entry in the table, and 5 for a type the table does not map.
  An entity is \<open>well_keyed\<close> when its type is not a string that names a member of
  \<open>Object.prototype\<close>.
\<close>

definition type_weight :: "type_value \<Rightarrow> int" where
  "type_weight t =
     (case t of Lit s \<Rightarrow> (case map_of PII_RISK_POINTS s of Some n \<Rightarrow> n | None \<Rightarrow> 5)
              | Inherited k \<Rightarrow> 5)"

definition well_keyed :: "PiiEntity \<Rightarrow> bool" where
  "well_keyed e = (case e_type e of Lit s \<Rightarrow> s \<notin> set Object_prototype_keys | Inherited k \<Rightarrow> True)"

definition ssn :: PiiEntity where
  "ssn = \<lparr>e_type = Lit (js ''SSN''), e_text = js ''123-45-6789'', e_start = 10, e_end = 21,
          e_confidence = 1\<rparr>"

text \<open>A clock that stands still: every reading falls in the same millisecond.\<close>

definition clk0 :: clock where
  "clk0 n = 1700000000000"

definition cfgC :: RiskConfig where
  "cfgC = \<lparr>threshold = 40, windowMs = 3600000\<rparr>"

subsection \<open>Spans\<close>

text \<open>
  Two entities overlap when their spans intersect; a list of entities is non-overlapping when
  no two entities at different positions of the list overlap.
\<close>

definition overlap :: "PiiEntity \<Rightarrow> PiiEntity \<Rightarrow> bool" where
  "overlap a b = (e_start a < e_end b \<and> e_end a > e_start b)"

definition nonoverlapping :: "PiiEntity list \<Rightarrow> bool" where
  "nonoverlapping es =
     (\<forall>i<length es. \<forall>j<length es. i \<noteq> j \<longrightarrow> \<not> overlap (es ! i) (es ! j))"

text \<open>What holds of the state of the locator's loop at every turn.\<close>

definition loc_inv :: "jsstring \<Rightarrow> locator \<Rightarrow> bool" where
  "loc_inv tx st =
     (l_usedRanges st = map (\<lambda>e. (e_start e, e_end e)) (l_entities st)
      \<and> nonoverlapping (l_entities st)
      \<and> (\<forall>e\<in>set (l_entities st). 0 \<le> e_start e \<and> e_start e < e_end e
             \<and> (0x130 \<notin> set tx \<longrightarrow> e_end e \<le> int (length tx))))"

definition tok_xy :: RawToken where
  "tok_xy = \<lparr>tk_entity = js ''B-EMAIL'', tk_word = js ''xy'', tk_score = 1, tk_index = 0\<rparr>"

subsection \<open>Redaction\<close>

text \<open>\<open>!text || text.trim().length === 0\<close>: the input \<open>redact\<close> answers without detection.\<close>

definition blank :: "jsstring \<Rightarrow> bool" where
  "blank tx = (tx = [] \<or> length (trim tx) = 0)"

text \<open>
  \<open>replacements\<close> pairs each entity of a list with the replacement generated for it, the
  generator state going from each entity to the next. \<open>replace_spans tx pos ps\<close> is the text
  from \<open>pos\<close> on in which the span of each entity of \<open>ps\<close>, taken from left to right, is
  replaced by the string paired with it, and every other character is kept in place.
\<close>

fun replacements ::
  "'g externals \<Rightarrow> RedactionOptions \<Rightarrow> int \<Rightarrow> 'g \<Rightarrow> PiiEntity list \<Rightarrow> (PiiEntity \<times> jsstring) list" where
  "replacements X opts now g [] = []"
| "replacements X opts now g (e # es) =
     (e, fst (replacement_of X opts now g e))
       # replacements X opts now (snd (replacement_of X opts now g e)) es"

fun replace_spans :: "jsstring \<Rightarrow> nat \<Rightarrow> (PiiEntity \<times> jsstring) list \<Rightarrow> jsstring" where
  "replace_spans tx pos [] = drop pos tx"
| "replace_spans tx pos ((e, r) # rest) =
     take (nat (e_start e) - pos) (drop pos tx) @ r @ replace_spans tx (nat (e_end e)) rest"

text \<open>
  For the proofs: one turn of the loop on the text alone (\<open>splice\<close>), the text between two
  positions with the spans replaced, read from the left (\<open>pieces\<close>) and from the right
  (\<open>rebuilt\<close>), the condition under which a descending list of spans lies within the first
  \<open>p\<close> characters (\<open>fits\<close>), and non-overlap stated by recursion on the list (\<open>separate\<close>).
\<close>

definition splice :: "jsstring \<Rightarrow> PiiEntity \<times> jsstring \<Rightarrow> jsstring" where
  "splice res p = slice res 0 (e_start (fst p)) @ snd p @ slice_from res (e_end (fst p))"

fun pieces :: "jsstring \<Rightarrow> nat \<Rightarrow> nat \<Rightarrow> (PiiEntity \<times> jsstring) list \<Rightarrow> jsstring" where
  "pieces tx pos p [] = take (p - pos) (drop pos tx)"
| "pieces tx pos p ((e, r) # rest) =
     take (nat (e_start e) - pos) (drop pos tx) @ r @ pieces tx (nat (e_end e)) p rest"

fun rebuilt :: "jsstring \<Rightarrow> nat \<Rightarrow> (PiiEntity \<times> jsstring) list \<Rightarrow> jsstring" where
  "rebuilt tx p [] = take p tx"
| "rebuilt tx p ((e, r) # rest) =
     rebuilt tx (nat (e_start e)) rest @ r @ take (p - nat (e_end e)) (drop (nat (e_end e)) tx)"

fun fits :: "jsstring \<Rightarrow> nat \<Rightarrow> PiiEntity list \<Rightarrow> bool" where
  "fits tx p [] = (p \<le> length tx)"
| "fits tx p (e # rest) =
     (0 \<le> e_start e \<and> e_start e \<le> e_end e \<and> nat (e_end e) \<le> p \<and> p \<le> length tx
      \<and> fits tx (nat (e_start e)) rest)"

fun separate :: "PiiEntity list \<Rightarrow> bool" where
  "separate [] = True"
| "separate (x # xs) = ((\<forall>y\<in>set xs. \<not> overlap x y) \<and> separate xs)"

text \<open>
  An example: the text \<open>Bob: bob@x.org\<close> with its two entities, and options that ask for
  bracketed type names.
\<close>

definition person_bob :: PiiEntity where
  "person_bob =
     \<lparr>e_type = Lit (js ''PERSON''), e_text = js ''Bob'', e_start = 0, e_end = 3,
      e_confidence = 1\<rparr>"

definition email_bob :: PiiEntity where
  "email_bob =
     \<lparr>e_type = Lit (js ''EMAIL''), e_text = js ''bob@x.org'', e_start = 5, e_end = 14,
      e_confidence = 1\<rparr>"

definition simple_options :: RedactionOptions where
  "simple_options =
     \<lparr>useDeterministicReplacement = False, salt = js ''s'', timeoutMs = 500,
      failStrategy = Closed\<rparr>"

subsection \<open>Streams\<close>

text \<open>
  The text contents of the frames pushed (\<open>frame_contents\<close>), the text content of a parsed
  chunk, of a line and of a whole upstream text (\<open>delta_text\<close>, \<open>line_text\<close>,
  \<open>input_text\<close>: the contents of the \<open>data:\<close> lines that a line feed ends, in order), and
  the upstream text of a list of events (\<open>chunks_of\<close>).
\<close>

fun frame_contents :: "pushed_chunk list \<Rightarrow> jsstring list" where
  "frame_contents [] = []"
| "frame_contents (Raw s # cs) = frame_contents cs"
| "frame_contents (Delta f # cs) = f_content f # frame_contents cs"

definition delta_text :: "OpenAiChunk \<Rightarrow> jsstring" where
  "delta_text data =
     (case chunk_choices data of
        None \<Rightarrow> []
      | Some [] \<Rightarrow> []
      | Some (None # others) \<Rightarrow> []
      | Some (Some choice # others) \<Rightarrow>
          (case choice_delta choice of
             None \<Rightarrow> []
           | Some d \<Rightarrow> (case delta_content d of None \<Rightarrow> [] | Some c \<Rightarrow> c)))"

definition line_text :: "(jsstring \<Rightarrow> OpenAiChunk option) \<Rightarrow> jsstring \<Rightarrow> jsstring" where
  "line_text parse rawLine =
     (let line = strip_cr rawLine in
      if startsWith line (js ''data:'') \<and> trim (slice_from line 5) \<noteq> js ''[DONE]''
      then (case parse (trim (slice_from line 5)) of None \<Rightarrow> [] | Some data \<Rightarrow> delta_text data)
      else [])"



text \<open>
  \<open>redacted_texts svc w ts\<close> are the texts the service returns for \<open>ts\<close>, called in that order
  from the state \<open>w\<close>; \<open>world_after\<close> is the state those calls leave. A service
  \<open>always_answers\<close> when no call of it ends in an error.
\<close>

fun redacted_texts :: "'w redaction_service \<Rightarrow> 'w \<Rightarrow> jsstring list \<Rightarrow> jsstring list" where
  "redacted_texts svc w [] = []"
| "redacted_texts svc w (t # ts) =
     (case svc w t of
        (Inr r, w') \<Rightarrow> rr_text r # redacted_texts svc w' ts
      | (Inl e, w') \<Rightarrow> redacted_texts svc w' ts)"

fun world_after :: "'w redaction_service \<Rightarrow> 'w \<Rightarrow> jsstring list \<Rightarrow> 'w" where
  "world_after svc w [] = w"
| "world_after svc w (t # ts) = world_after svc (snd (svc w t)) ts"


text \<open>
  For the proofs: what holds of a stream after every step (\<open>stream_inv\<close>), the text handed to
  the service or still buffered (\<open>pending_text\<close>), what one step does to them (\<open>step_ok\<close>),
  and the state of a stream after the upstream text \<open>inp\<close> has come in (\<open>tracks\<close>).
\<close>

definition stream_inv :: "'w redaction_service \<Rightarrow> 'w \<Rightarrow> 'w stream \<Rightarrow> bool" where
  "stream_inv svc w0 st =
     (frame_contents (pushed st) = redacted_texts svc w0 (sent st)
      \<and> world st = world_after svc w0 (sent st))"













section \<open>String literals\<close>

lemma js_char_inj: "(of_nat (of_char c) :: 16 word) = of_nat (of_char d) \<Longrightarrow> c = d"
proof -
  assume a: "(of_nat (of_char c) :: 16 word) = of_nat (of_char d)"
  have b: "\<And>x::char. (of_char x :: nat) < 65536"
  proof -
    fix x :: char
    have "(of_char x :: nat) mod 256 = of_char x" by (rule of_char_mod_256)
    then have "(of_char x :: nat) < 256" by (metis mod_less_divisor zero_less_numeral)
    then show "(of_char x :: nat) < 65536" by linarith
  qed
  have "\<And>x::char. unat (of_nat (of_char x) :: 16 word) = of_char x"
    using b by (simp add: unat_of_nat)
  then have "(of_char c :: nat) = of_char d" using a by metis
  then show "c = d" by simp
qed

lemma js_eq_iff [simp]: "(js a = js b) = (a = b)"
proof
  assume "js a = js b"
  then show "a = b" unfolding js_def
    by (induction a arbitrary: b) (auto dest: js_char_inj)
qed simp

section \<open>Properties of the store and the session store\<close>

lemma in_delete: "x \<in> set (AList.delete k al) \<Longrightarrow> x \<in> set al"
  by (simp add: AList.delete_eq)

lemma keys_update: "fst ` set (AList.update k v al) = insert k (fst ` set al)"
  by (induction al) auto

lemma store_get_keys: "keys (snd (store_get clk key m)) \<subseteq> keys m"
  by (auto simp: store_get_def keys_def Date_now_def
           split: option.splits prod.splits if_splits dest!: in_delete)

lemma store_set_keys: "keys (store_set clk key v ttl m) \<subseteq> insert key (keys m)"
  by (auto simp: store_set_def keys_def Date_now_def Let_def keys_update
           split: option.splits prod.splits if_splits list.splits dest!: in_delete)

lemma store_incr_keys: "keys (snd (store_incr clk key m)) \<subseteq> insert key (keys m)"
proof -
  obtain cur m1 where g: "store_get clk key m = (cur, m1)" by (cases "store_get clk key m")
  have k1: "keys m1 \<subseteq> keys m" using store_get_keys[of clk key m] g by simp
  obtain ttl m2 where t: "(case map_of (entries m1) key of
               None \<Rightarrow> (None, m1)
             | Some e \<Rightarrow>
                 (case truthy (expiresAt e) of
                    None \<Rightarrow> (None, m1)
                  | Some ex \<Rightarrow>
                      (let (now, m') = Date_now clk m1
                       in (Some (max 0 ((ex - now) div 1000)), m')))) = (ttl, m2)"
    by (metis surj_pair)
  have k2: "keys m2 = keys m1" using t
    by (auto simp: keys_def Date_now_def split: option.splits)
  have "snd (store_incr clk key m)
          = store_set clk key ((case cur of None \<Rightarrow> 0 | Some v \<Rightarrow> v) + 1) ttl m2"
    using g t by (simp add: store_incr_def Let_def)
  then show ?thesis using store_set_keys[of clk key _ ttl m2] k1 k2 by auto
qed

lemma store_expire_keys: "keys (snd (store_expire clk key ttl m)) \<subseteq> insert key (keys m)"
  by (auto simp: store_expire_def keys_def Date_now_def keys_update split: option.splits)

lemma store_del_keys: "keys (snd (store_del key m)) \<subseteq> keys m"
  by (auto simp: store_del_def keys_def dest!: in_delete)

lemma incr_times_keys: "keys (incr_times clk key n m) \<subseteq> insert key (keys m)"
proof (induction n arbitrary: m)
  case 0
  show ?case by auto
next
  case (Suc n)
  show ?case
    using Suc.IH[of "snd (store_incr clk key m)"] store_incr_keys[of clk key m] by auto
qed

lemma incrementRisk_keys:
  "keys (snd (incrementRisk clk sid pts w m)) \<subseteq> insert (riskPrefix @ sid) (keys m)"
proof -
  let ?key = "riskPrefix @ sid"
  obtain ns m1 where i: "store_incr clk ?key m = (ns, m1)" by (cases "store_incr clk ?key m")
  have k1: "keys m1 \<subseteq> insert ?key (keys m)" using store_incr_keys[of clk ?key m] i by simp
  define m2 where "m2 = (if ns = 1 then snd (store_expire clk ?key (ceil_div_1000 w) m1) else m1)"
  have k2: "keys m2 \<subseteq> insert ?key (keys m)"
    using k1 store_expire_keys[of clk ?key "ceil_div_1000 w" m1] by (auto simp: m2_def)
  have "snd (incrementRisk clk sid pts w m) = m2
        \<or> (\<exists>n. snd (incrementRisk clk sid pts w m) = incr_times clk ?key n m2)"
    using i by (auto simp: incrementRisk_def m2_def Let_def split: points.splits)
  then show ?thesis
  proof
    assume "snd (incrementRisk clk sid pts w m) = m2"
    then show ?thesis using k2 by simp
  next
    assume "\<exists>n. snd (incrementRisk clk sid pts w m) = incr_times clk ?key n m2"
    then obtain n where n: "snd (incrementRisk clk sid pts w m) = incr_times clk ?key n m2" ..
    have "keys (incr_times clk ?key n m2) \<subseteq> insert ?key (keys m2)"
      by (rule incr_times_keys)
    then show ?thesis using k2 n by auto
  qed
qed

lemma risk_key_not_session_key: "riskPrefix @ a \<noteq> keyPrefix @ b"
  by (simp add: riskPrefix_def keyPrefix_def js_def)

lemma perform_keys:
  assumes "\<not> increments sid c" and "riskPrefix @ sid \<notin> keys m"
  shows "riskPrefix @ sid \<notin> keys (perform clk m c)"
proof (cases c)
  case (Call_get s f)
  then show ?thesis using assms store_get_keys[of clk "(keyPrefix @ s) @ js '':'' @ f" m]
    by (auto simp: session_get_def store_hget_def)
next
  case (Call_increment s f a)
  obtain cur m1 where g: "store_get clk ((keyPrefix @ s) @ js '':'' @ f) m = (cur, m1)"
    by (metis surj_pair)
  have "keys m1 \<subseteq> keys m" using store_get_keys[of clk _ m] g by (metis snd_conv)
  moreover have "perform clk m c = store_set clk ((keyPrefix @ s) @ js '':'' @ f)
                   ((case cur of None \<Rightarrow> 0 | Some v \<Rightarrow> v) + a) None m1"
    using g Call_increment by (simp add: session_increment_def store_hincrby_def Let_def)
  ultimately show ?thesis
    using assms store_set_keys[of clk "(keyPrefix @ s) @ js '':'' @ f" _ None m1]
      risk_key_not_session_key[of sid "s @ js '':'' @ f"]
    by auto
next
  case (Call_incrementRisk s p w)
  then show ?thesis using assms incrementRisk_keys[of clk s p w m] by auto
next
  case (Call_getRiskScore s)
  then show ?thesis using assms store_get_keys[of clk "riskPrefix @ s" m]
    by (auto simp: getRiskScore_def split: prod.splits)
next
  case (Call_isBanned s th)
  then show ?thesis using assms store_get_keys[of clk "riskPrefix @ s" m]
    by (auto simp: isBanned_def getRiskScore_def split: prod.splits)
next
  case (Call_clearRisk s)
  then show ?thesis using assms store_del_keys[of "riskPrefix @ s" m]
    by (auto simp: clearRisk_def)
next
  case (Call_clearSession s)
  then show ?thesis
    using assms store_del_keys[of "keyPrefix @ s" m]
      store_del_keys[of "riskPrefix @ s" "snd (store_del (keyPrefix @ s) m)"]
    by (auto simp: clearSession_def)
qed

lemma run_keys:
  "\<not> list_ex (increments sid) cs \<Longrightarrow> riskPrefix @ sid \<notin> keys m
   \<Longrightarrow> riskPrefix @ sid \<notin> keys (foldl (perform clk) m cs)"
  by (induction cs arbitrary: m) (auto simp: perform_keys)

lemma absent_lookup: "k \<notin> keys m \<Longrightarrow> map_of (entries m) k = None"
  by (simp add: keys_def map_of_eq_None_iff)

lemma getRiskScore_absent:
  "map_of (entries m) (riskPrefix @ sid) = None \<Longrightarrow> getRiskScore clk sid m = (0, m)"
  by (simp add: getRiskScore_def store_get_def)

lemma clearRisk_lookup: "map_of (entries (clearRisk sid m)) (riskPrefix @ sid) = None"
  by (simp add: clearRisk_def store_del_def delete_conv')

lemma getRiskScore_expired:
  "expired clk (riskPrefix @ sid) m \<Longrightarrow> fst (getRiskScore clk sid m) = 0"
  by (auto simp: expired_def getRiskScore_def store_get_def Date_now_def split: option.splits)

lemma zero_score_not_banned:
  assumes "0 < th" and "fst (getRiskScore clk sid m) = 0"
  shows "\<not> fst (isBanned clk sid th m)"
proof -
  obtain c m1 where "getRiskScore clk sid m = (c, m1)" by (metis surj_pair)
  then show ?thesis using assms by (simp add: isBanned_def)
qed

lemma store_get_fst:
  "fst (store_get clk key m) = map_option val (live_entry (clk (reads m)) (entries m) key)"
  by (auto simp: store_get_def live_entry_def Date_now_def split: option.splits)

lemma store_get_entries:
  "entries (snd (store_get clk key m)) =
     (if expired clk key m then AList.delete key (entries m) else entries m)"
  by (auto simp: store_get_def expired_def Date_now_def split: option.splits)

lemma live_entry_delete_expired:
  "expired clk key m \<Longrightarrow>
   live_entry (clk (reads m)) (AList.delete key (entries m)) k
     = live_entry (clk (reads m)) (entries m) k"
  by (auto simp: live_entry_def expired_def delete_conv' split: option.splits)

lemma getRiskScore_fst: "fst (getRiskScore clk sid m) = current_score (clk (reads m)) m sid"
  using store_get_fst[of clk "riskPrefix @ sid" m]
  by (auto simp: getRiskScore_def current_score_def split: prod.splits option.splits)

text \<open>
  C10. A session on which \<open>incrementRisk\<close> was never called since the store was created, a
  session whose risk was cleared, and a session whose risk entry has expired all read as score
  0, and none of them is banned under a threshold greater than 0.
\<close>

theorem C10_unseen_session_not_banned:
  assumes "0 < th"
  shows "(\<not> list_ex (increments sid) cs \<longrightarrow>
            fst (getRiskScore clk sid (foldl (perform clk) fresh cs)) = 0
          \<and> \<not> fst (isBanned clk sid th (foldl (perform clk) fresh cs)))
       \<and> fst (getRiskScore clk sid (clearRisk sid m)) = 0
       \<and> \<not> fst (isBanned clk sid th (clearRisk sid m))
       \<and> (expired clk (riskPrefix @ sid) m \<longrightarrow>
            fst (getRiskScore clk sid m) = 0 \<and> \<not> fst (isBanned clk sid th m))"
proof -
  have a: "\<not> list_ex (increments sid) cs
           \<Longrightarrow> fst (getRiskScore clk sid (foldl (perform clk) fresh cs)) = 0"
    using run_keys[of sid cs fresh clk] absent_lookup getRiskScore_absent
    by (simp add: fresh_def keys_def)
  have b: "fst (getRiskScore clk sid (clearRisk sid m)) = 0"
    using clearRisk_lookup getRiskScore_absent by simp
  show ?thesis
    using a b zero_score_not_banned[OF assms] getRiskScore_expired by blast
qed

theorem C10_unseen_session_witness:
  "fst (getRiskScore clk0 (js ''k'')
          (foldl (perform clk0) fresh
             [Call_incrementRisk (js ''other'') (Num 25) 3600000, Call_clearRisk (js ''k'')])) = 0
   \<and> \<not> fst (isBanned clk0 (js ''k'') 1
          (foldl (perform clk0) fresh
             [Call_incrementRisk (js ''other'') (Num 25) 3600000, Call_clearRisk (js ''k'')]))
   \<and> expired clk0 (riskPrefix @ js ''k'')
        \<lparr>entries = [(riskPrefix @ js ''k'', \<lparr>val = 50, expiresAt = Some 1600000000000\<rparr>)],
         reads = 0\<rparr>
   \<and> fst (getRiskScore clk0 (js ''k'')
        \<lparr>entries = [(riskPrefix @ js ''k'', \<lparr>val = 50, expiresAt = Some 1600000000000\<rparr>)],
         reads = 0\<rparr>) = 0
   \<and> \<not> fst (isBanned clk0 (js ''k'') 1
        \<lparr>entries = [(riskPrefix @ js ''k'', \<lparr>val = 50, expiresAt = Some 1600000000000\<rparr>)],
         reads = 0\<rparr>)"
proof -
  have th: "(0::int) < 1" by simp
  have h: "\<not> list_ex (increments (js ''k''))
             [Call_incrementRisk (js ''other'') (Num 25) 3600000, Call_clearRisk (js ''k'')]"
    by (simp add: js_def)
  have e: "expired clk0 (riskPrefix @ js ''k'')
        \<lparr>entries = [(riskPrefix @ js ''k'', \<lparr>val = 50, expiresAt = Some 1600000000000\<rparr>)],
         reads = 0\<rparr>"
    by (simp add: expired_def truthy_def clk0_def)
  show ?thesis
    using C10_unseen_session_not_banned[OF th, of "js ''k''"
        "[Call_incrementRisk (js ''other'') (Num 25) 3600000, Call_clearRisk (js ''k'')]" clk0
        "\<lparr>entries = [(riskPrefix @ js ''k'', \<lparr>val = 50, expiresAt = Some 1600000000000\<rparr>)],
          reads = 0\<rparr>"] h e
    by blast
qed

section \<open>Properties of the risk engine\<close>

text \<open>
  C8. \<open>assessRisk\<close> with an empty entity list answers with the current score of the session,
  \<open>pointsAdded\<close> 0 and \<open>isBanned\<close> computed against the threshold. It writes nothing: the
  \<open>Map\<close> is the same afterwards, except that an entry of the session already past its expiry
  is dropped by the read, and every key has the same live entry (value and expiry) after the
  call as before.
\<close>

theorem C8_empty_assessment_reads_only:
  "fst (assessRisk clk cfg sid [] m) =
     \<lparr>r_score = current_score (clk (reads m)) m sid,
      r_isBanned = (current_score (clk (reads m)) m sid \<ge> threshold cfg),
      r_pointsAdded = Num 0\<rparr>
   \<and> entries (snd (assessRisk clk cfg sid [] m)) =
       (if expired clk (riskPrefix @ sid) m
        then AList.delete (riskPrefix @ sid) (entries m) else entries m)
   \<and> (\<forall>k. live_entry (clk (reads m)) (entries (snd (assessRisk clk cfg sid [] m))) k
          = live_entry (clk (reads m)) (entries m) k)"
proof -
  obtain c m1 where g: "getRiskScore clk sid m = (c, m1)" by (metis surj_pair)
  have c: "c = current_score (clk (reads m)) m sid"
    using getRiskScore_fst[of clk sid m] g by simp
  have m1: "m1 = snd (store_get clk (riskPrefix @ sid) m)"
    using g by (auto simp: getRiskScore_def split: prod.splits)
  have a: "assessRisk clk cfg sid [] m =
             (\<lparr>r_score = c, r_isBanned = (c \<ge> threshold cfg), r_pointsAdded = Num 0\<rparr>, m1)"
    using g by (simp add: assessRisk_def)
  have e: "entries m1 = (if expired clk (riskPrefix @ sid) m
        then AList.delete (riskPrefix @ sid) (entries m) else entries m)"
    using m1 store_get_entries by simp
  have "\<forall>k. live_entry (clk (reads m)) (entries m1) k = live_entry (clk (reads m)) (entries m) k"
    using e live_entry_delete_expired by simp
  then show ?thesis using a c e by simp
qed

lemma table_weights: "map_of PII_RISK_POINTS s = Some n \<Longrightarrow> 2 \<le> n"
  by (auto simp: PII_RISK_POINTS_def split: if_splits)

lemma risk_points_weight:
  "well_keyed e \<Longrightarrow> risk_points (e_type e) = Num (type_weight (e_type e))"
  using table_weights
  by (fastforce simp: well_keyed_def risk_points_def type_weight_def
                split: type_value.splits option.splits)

lemma type_weight_ge2: "2 \<le> type_weight t"
  using table_weights by (auto simp: type_weight_def split: type_value.splits option.splits)

lemma foldl_points:
  "list_all well_keyed es \<Longrightarrow>
   foldl (\<lambda>acc entity. add_points acc (risk_points (e_type entity))) (Num a) es
     = Num (a + sum_list (map (\<lambda>e. type_weight (e_type e)) es))"
  by (induction es arbitrary: a) (auto simp: risk_points_weight)

lemma sum_weights_ge2: "es \<noteq> [] \<Longrightarrow> 2 \<le> sum_list (map (\<lambda>e. type_weight (e_type e)) es)"
proof (induction es)
  case Nil
  then show ?case by simp
next
  case (Cons e es)
  have "0 \<le> sum_list (map (\<lambda>e. type_weight (e_type e)) es)"
    by (rule sum_list_nonneg) (use type_weight_ge2 in \<open>auto intro: order_trans[of 0 2]\<close>)
  then show ?case using type_weight_ge2[of "e_type e"] by simp
qed

lemma store_incr_fst:
  "fst (store_incr clk key m) =
     (case live_entry (clk (reads m)) (entries m) key of None \<Rightarrow> 0 | Some e \<Rightarrow> val e) + 1"
  using store_get_fst[of clk key m]
  by (auto simp: store_incr_def Let_def split: prod.splits option.splits)

lemma incrementRisk_fst:
  "1 < p \<Longrightarrow> fst (incrementRisk clk sid (Num p) w m) = current_score (clk (reads m)) m sid + p"
  using store_incr_fst[of clk "riskPrefix @ sid" m]
  by (auto simp: incrementRisk_def Let_def current_score_def split: prod.splits)

lemma incr_stable:
  assumes "entries m = [(key, \<lparr>val = v, expiresAt = Some 1700003600000\<rparr>)]"
  shows "store_incr clk0 key m =
          (v + 1, \<lparr>entries = [(key, \<lparr>val = v + 1, expiresAt = Some 1700003600000\<rparr>)],
                   reads = reads m + 3\<rparr>)"
  using assms
  by (simp add: store_incr_def store_get_def store_set_def truthy_def Date_now_def clk0_def
        maxSize_def Let_def)

lemma incr_times_stable:
  "entries m = [(key, \<lparr>val = v, expiresAt = Some 1700003600000\<rparr>)] \<Longrightarrow>
   entries (incr_times clk0 key n m) = [(key, \<lparr>val = v + int n, expiresAt = Some 1700003600000\<rparr>)]"
proof (induction n arbitrary: m v)
  case 0
  then show ?case by simp
next
  case (Suc n)
  have "entries (snd (store_incr clk0 key m))
          = [(key, \<lparr>val = v + 1, expiresAt = Some 1700003600000\<rparr>)]"
    using incr_stable[OF Suc.prems] by simp
  from Suc.IH[OF this] show ?case by simp
qed

lemma first_incr:
  "store_incr clk0 key fresh = (1, \<lparr>entries = [(key, \<lparr>val = 1, expiresAt = None\<rparr>)], reads = 0\<rparr>)"
  by (simp add: store_incr_def store_get_def store_set_def truthy_def Date_now_def clk0_def
        maxSize_def Let_def fresh_def)

lemma first_assess_entries:
  "entries (snd (assessRisk clk0 cfgC sid [ssn] fresh))
     = [(riskPrefix @ sid, \<lparr>val = 25, expiresAt = Some 1700003600000\<rparr>)]"
proof -
  have p: "foldl (\<lambda>acc entity. add_points acc (risk_points (e_type entity))) (Num 0) [ssn] = Num 25"
    by (simp add: ssn_def risk_points_def PII_RISK_POINTS_def js_def)
  have e: "entries (snd (store_expire clk0 (riskPrefix @ sid) (ceil_div_1000 (windowMs cfgC))
            \<lparr>entries = [(riskPrefix @ sid, \<lparr>val = 1, expiresAt = None\<rparr>)], reads = 0\<rparr>))
         = [(riskPrefix @ sid, \<lparr>val = 1, expiresAt = Some 1700003600000\<rparr>)]"
    by (simp add: store_expire_def Date_now_def clk0_def ceil_div_1000_def cfgC_def)
  have "snd (assessRisk clk0 cfgC sid [ssn] fresh)
        = incr_times clk0 (riskPrefix @ sid) 24
            (snd (store_expire clk0 (riskPrefix @ sid) (ceil_div_1000 (windowMs cfgC))
               \<lparr>entries = [(riskPrefix @ sid, \<lparr>val = 1, expiresAt = None\<rparr>)], reads = 0\<rparr>))"
    using p first_incr[of "riskPrefix @ sid"]
    by (simp add: assessRisk_def incrementRisk_def Let_def)
  then show ?thesis using incr_times_stable[OF e, of 24] by simp
qed

text \<open>
  C7. For a non-empty entity list, \<open>assessRisk\<close> answers with the previous score of the session
  plus the sum of the weights of the entities' types (5 for a type the table does not map),
  and \<open>isBanned\<close> is true exactly when that score is at least the threshold. The witness is
  scenario C: two assessments of one SSN under threshold 40 give 25, not banned, then 50,
  banned.
\<close>

theorem C7_assessRisk_adds_weights:
  assumes "entities \<noteq> []" and "list_all well_keyed entities"
  shows "fst (assessRisk clk cfg sid entities m) =
           \<lparr>r_score = current_score (clk (reads m)) m sid
                        + sum_list (map (\<lambda>e. type_weight (e_type e)) entities),
            r_isBanned = (current_score (clk (reads m)) m sid
                        + sum_list (map (\<lambda>e. type_weight (e_type e)) entities) \<ge> threshold cfg),
            r_pointsAdded = Num (sum_list (map (\<lambda>e. type_weight (e_type e)) entities))\<rparr>"
proof -
  let ?p = "sum_list (map (\<lambda>e. type_weight (e_type e)) entities)"
  have f: "foldl (\<lambda>acc entity. add_points acc (risk_points (e_type entity))) (Num 0) entities
             = Num ?p"
    using foldl_points[OF assms(2), of 0] by simp
  have p: "1 < ?p" using sum_weights_ge2[OF assms(1)] by simp
  obtain ns m1 where i: "incrementRisk clk sid (Num ?p) (windowMs cfg) m = (ns, m1)"
    by (metis surj_pair)
  have ns: "ns = current_score (clk (reads m)) m sid + ?p"
    using incrementRisk_fst[OF p, of clk sid "windowMs cfg" m] i by simp
  show ?thesis using assms(1) f i ns by (simp add: assessRisk_def)
qed

theorem C7_scenario_C_witness:
  "fst (assessRisk clk0 cfgC (js ''k'') [ssn] fresh)
     = \<lparr>r_score = 25, r_isBanned = False, r_pointsAdded = Num 25\<rparr>
   \<and> fst (assessRisk clk0 cfgC (js ''k'') [ssn]
            (snd (assessRisk clk0 cfgC (js ''k'') [ssn] fresh)))
     = \<lparr>r_score = 50, r_isBanned = True, r_pointsAdded = Num 25\<rparr>"
proof -
  have ne: "[ssn] \<noteq> []" by simp
  have wk: "list_all well_keyed [ssn]"
    by (simp add: well_keyed_def ssn_def Object_prototype_keys_def js_def)
  have w: "sum_list (map (\<lambda>e. type_weight (e_type e)) [ssn]) = 25"
    by (simp add: type_weight_def ssn_def PII_RISK_POINTS_def js_def)
  have c0: "current_score (clk0 (reads fresh)) fresh (js ''k'') = 0"
    by (simp add: current_score_def live_entry_def fresh_def)
  have c1: "current_score (clk0 (reads (snd (assessRisk clk0 cfgC (js ''k'') [ssn] fresh))))
              (snd (assessRisk clk0 cfgC (js ''k'') [ssn] fresh)) (js ''k'') = 25"
    using first_assess_entries[of "js ''k''"]
    by (simp add: current_score_def live_entry_def truthy_def clk0_def)
  show ?thesis
    using C7_assessRisk_adds_weights[OF ne wk, of clk0 cfgC "js ''k''" fresh]
          C7_assessRisk_adds_weights[OF ne wk, of clk0 cfgC "js ''k''"
             "snd (assessRisk clk0 cfgC (js ''k'') [ssn] fresh)"]
          w c0 c1
    by (simp add: cfgC_def)
qed

text \<open>
  A type that is a string naming a member of \<open>Object.prototype\<close> has no weight: the lookup
  finds the inherited member, and the sum is no longer a number.
\<close>

lemma inherited_key_garbles: "risk_points (Lit (js ''constructor'')) = Garbled"
  by (simp add: risk_points_def PII_RISK_POINTS_def Object_prototype_keys_def)

section \<open>Properties of the replacement generator\<close>

lemma password_marker:
  "getDeterministicReplacement X now g0 t (Lit (js ''PASSWORD'')) sa
     = (js ''[REDACTED_PASSWORD]'', faker_seed X (seed_of_digest (createHmac_sha256 X sa t)))"
  by (simp add: getDeterministicReplacement_def Let_def)

lemma default_marker:
  "ty \<notin> Lit ` set PII_ENTITY_TYPES \<Longrightarrow>
   getDeterministicReplacement X now g0 t ty sa
     = (js ''[REDACTED]'', faker_seed X (seed_of_digest (createHmac_sha256 X sa t)))"
  by (simp add: getDeterministicReplacement_def PII_ENTITY_TYPES_def Let_def)

text \<open>
  For every type but \<open>DATE_OF_BIRTH\<close> the call answers the same whatever the clock reads and
  whatever state earlier calls left in \<open>faker\<close>: \<open>faker.seed\<close> overwrites that state, and no
  other member the call uses looks at the host.
\<close>

lemma replacement_independent_of_host_state:
  "ty \<noteq> Lit (js ''DATE_OF_BIRTH'') \<Longrightarrow>
   getDeterministicReplacement X now g0 t ty sa
     = getDeterministicReplacement X now' g0' t ty sa"
  unfolding getDeterministicReplacement_def Let_def by (simp only: if_False)

text \<open>
  C2. The generator is not a function of its three arguments alone. For \<open>DATE_OF_BIRTH\<close> the
  string returned is the formatted date that \<open>faker.date.birthdate\<close> computes from the clock
  reading of the call, so nothing in the program makes two calls with one triple at two
  times agree: there is a library behaviour (a birthdate that follows the reference date)
  under which they differ.
\<close>

theorem C2_date_of_birth_reads_the_clock:
  "fst (getDeterministicReplacement X now g0 t (Lit (js ''DATE_OF_BIRTH'')) sa)
     = toLocaleDateString_enUS X (fst (date_birthdate_age X 18 80 now
          (faker_seed X (seed_of_digest (createHmac_sha256 X sa t)))))
   \<and> \<not> (\<forall>(Y :: unit externals) now1 now2.
          fst (getDeterministicReplacement Y now1 () t (Lit (js ''DATE_OF_BIRTH'')) sa)
            = fst (getDeterministicReplacement Y now2 () t (Lit (js ''DATE_OF_BIRTH'')) sa))"
proof
  show "fst (getDeterministicReplacement X now g0 t (Lit (js ''DATE_OF_BIRTH'')) sa)
     = toLocaleDateString_enUS X (fst (date_birthdate_age X 18 80 now
          (faker_seed X (seed_of_digest (createHmac_sha256 X sa t)))))"
    by (simp add: getDeterministicReplacement_def Let_def split: prod.splits)
next
  define Y :: "unit externals" where
    "Y = \<lparr>createHmac_sha256 = (\<lambda>k m. 0), faker_seed = (\<lambda>n. ()),
          person_fullName = (\<lambda>g. ([], g)), internet_email = (\<lambda>g. ([], g)),
          phone_number = (\<lambda>g. ([], g)), location_streetAddress = (\<lambda>g. ([], g)),
          string_numeric = (\<lambda>n g. ([], g)), finance_accountNumber = (\<lambda>g. ([], g)),
          date_birthdate_age = (\<lambda>mn mx ref g. (ref - mn * 31557600000, g)),
          toLocaleDateString_enUS = (\<lambda>d. if d < 0 then js ''12/31/1969'' else js ''1/1/1970''),
          string_alpha_upper = (\<lambda>n g. ([], g)), internet_ipv4 = (\<lambda>g. ([], g)),
          internet_url = (\<lambda>g. ([], g)), internet_username = (\<lambda>g. ([], g))\<rparr>"
  have "fst (getDeterministicReplacement Y 0 () t (Lit (js ''DATE_OF_BIRTH'')) sa)
          \<noteq> fst (getDeterministicReplacement Y (18 * 31557600000) () t
                   (Lit (js ''DATE_OF_BIRTH'')) sa)"
    by (simp add: getDeterministicReplacement_def Let_def Y_def)
  then show "\<not> (\<forall>(Y :: unit externals) now1 now2.
          fst (getDeterministicReplacement Y now1 () t (Lit (js ''DATE_OF_BIRTH'')) sa)
            = fst (getDeterministicReplacement Y now2 () t (Lit (js ''DATE_OF_BIRTH'')) sa))"
    by blast
qed

text \<open>
  C9, as the claim states it, fails: for a type outside the table the marker does not contain
  the name of the type.
\<close>

theorem C9_default_marker_counterexample:
  "\<forall>(X :: 'g externals) now g0.
     fst (getDeterministicReplacement X now g0 (js ''DE89 3704 0044'') (Lit (js ''IBAN''))
            (js ''salt'')) = js ''[REDACTED]''
     \<and> \<not> (\<exists>pre post. js ''[REDACTED]'' = pre @ js ''IBAN'' @ post)"
proof -
  have a: "\<And>(X :: 'g externals) now g0. fst (getDeterministicReplacement X now g0 (js ''DE89 3704 0044'')
            (Lit (js ''IBAN'')) (js ''salt'')) = js ''[REDACTED]''"
    by (simp add: getDeterministicReplacement_def Let_def)
  have b: "\<not> (\<exists>pre post. js ''[REDACTED]'' = pre @ js ''IBAN'' @ post)"
  proof
    assume "\<exists>pre post. js ''[REDACTED]'' = pre @ js ''IBAN'' @ post"
    then obtain pre post where e: "js ''[REDACTED]'' = pre @ js ''IBAN'' @ post" by blast
    have "set (js ''[REDACTED]'') = set (pre @ js ''IBAN'' @ post)"
      by (rule arg_cong[OF e])
    moreover have "(73 :: 16 word) \<in> set (js ''IBAN'')" by (simp add: js_def)
    ultimately have "(73 :: 16 word) \<in> set (js ''[REDACTED]'')" by simp
    then show False by (simp add: js_def)
  qed
  show ?thesis using a b by simp
qed

text \<open>
  C9, amended. For the type \<open>PASSWORD\<close> the generator returns the constant marker
  \<open>[REDACTED_PASSWORD]\<close> whatever the text and the salt; for every type that is none of the
  seventeen of the table it returns the constant marker \<open>[REDACTED]\<close>.
\<close>

theorem C9_password_and_default_markers:
  "fst (getDeterministicReplacement X now g0 t (Lit (js ''PASSWORD'')) sa)
     = js ''[REDACTED_PASSWORD]''
   \<and> (ty \<notin> Lit ` set PII_ENTITY_TYPES \<longrightarrow>
        fst (getDeterministicReplacement X now g0 t ty sa) = js ''[REDACTED]'')"
  by (simp add: password_marker default_marker)

theorem C9_markers_witness:
  "\<forall>(X :: 'g externals) now g0.
     fst (getDeterministicReplacement X now g0 (js ''hunter2'') (Lit (js ''PASSWORD''))
            (js ''salt'')) = js ''[REDACTED_PASSWORD]''
     \<and> Inherited (js ''constructor'') \<notin> Lit ` set PII_ENTITY_TYPES
     \<and> fst (getDeterministicReplacement X now g0 (js ''hunter2'')
            (Inherited (js ''constructor'')) (js ''salt'')) = js ''[REDACTED]''"
proof -
  have h: "Inherited (js ''constructor'') \<notin> Lit ` set PII_ENTITY_TYPES" by auto
  have "\<And>(X :: 'g externals) now g0.
     fst (getDeterministicReplacement X now g0 (js ''hunter2'') (Lit (js ''PASSWORD''))
            (js ''salt'')) = js ''[REDACTED_PASSWORD]''
     \<and> fst (getDeterministicReplacement X now g0 (js ''hunter2'')
            (Inherited (js ''constructor'')) (js ''salt'')) = js ''[REDACTED]''"
    using h C9_password_and_default_markers[of _ _ _ "js ''hunter2''" "js ''salt''"
              "Inherited (js ''constructor'')"]
    by simp
  then show ?thesis using h by simp
qed

section \<open>Properties of the entity locator\<close>

lemma find_from_found:
  "find_from target cs i = Some k \<Longrightarrow> k - i + length target \<le> length cs"
proof (induction cs arbitrary: i)
  case Nil
  then show ?case by (simp split: if_splits)
next
  case (Cons c cs)
  show ?case
  proof (cases "take (length target) (c # cs) = target")
    case True
    then have "k = i" using Cons.prems by simp
    moreover have "length (take (length target) (c # cs)) = length target"
      using True by simp
    then have "length target \<le> length (c # cs)" by simp
    ultimately show ?thesis by simp
  next
    case False
    then have f: "find_from target cs (Suc i) = Some k" using Cons.prems by simp
    then have "k - Suc i + length target \<le> length cs" by (rule Cons.IH)
    moreover have "Suc i \<le> k" using f by (rule find_from_ge)
    ultimately show ?thesis by simp
  qed
qed

lemma indexOf_found: "indexOf s target from = Some k \<Longrightarrow> k + length target \<le> length s"
proof -
  assume a: "indexOf s target from = Some k"
  let ?st = "min from (length s)"
  have f: "find_from target (drop ?st s) ?st = Some k" using a by (simp add: indexOf_def Let_def)
  have "k - ?st + length target \<le> length (drop ?st s)" using f by (rule find_from_found)
  moreover have "?st \<le> k" using f by (rule find_from_ge)
  ultimately show ?thesis by simp
qed

lemma findPosition_loop_result:
  "findPosition_loop srch tx used frm = Some (s, e) \<Longrightarrow>
     0 \<le> s \<and> e = s + int (length srch) \<and> \<not> overlaps_used used s e
     \<and> nat s + length (toLowerCase srch) \<le> length (toLowerCase tx)"
proof (induction srch tx used frm rule: findPosition_loop.induct)
  case (1 srch tx used frm)
  note unf = findPosition_loop.simps[of srch tx used frm]
  show ?case
  proof (cases "indexOf (toLowerCase tx) (toLowerCase srch) frm")
    case None
    then show ?thesis using "1.prems" unf by (simp split: if_splits)
  next
    case (Some start)
    have lt: "frm < length tx" using "1.prems" unf by (simp split: if_splits)
    show ?thesis
    proof (cases "overlaps_used used (int start) (int (start + length srch))")
      case True
      then have rec: "findPosition_loop srch tx used (start + 1) = Some (s, e)"
        using "1.prems" unf Some lt by (simp add: Let_def)
      have "\<not> \<not> overlaps_used used (int start) (int (start + length srch))"
        using True by simp
      from "1.IH"[OF lt Some refl this rec] show ?thesis .
    next
      case False
      then have "s = int start" "e = int (start + length srch)"
        using "1.prems" unf Some lt by (simp_all add: Let_def)
      then show ?thesis using False indexOf_found[OF Some] by simp
    qed
  qed
qed

lemma length_toLowerCase_eq: "0x130 \<notin> set s \<Longrightarrow> length (toLowerCase s) = length s"
  by (induction s) (auto simp: toLowerCase_def lower_unit_def)

lemma finalizeGroup_result:
  assumes "finalizeGroup grp tx used = Some ent"
  shows "0 \<le> e_start ent \<and> e_start ent < e_end ent
         \<and> \<not> overlaps_used used (e_start ent) (e_end ent)
         \<and> (0x130 \<notin> set tx \<longrightarrow> e_end ent \<le> int (length tx))"
proof -
  obtain ty where ty: "label_type (g_label grp) = Some ty"
    using assms by (auto simp: finalizeGroup_def split: option.splits)
  let ?joined = "trim (foldl join_word [] (g_words grp))"
  have len: "2 \<le> length ?joined"
    using assms ty by (auto simp: finalizeGroup_def Let_def split: option.splits if_splits)
  obtain s e where pos: "findPosition ?joined tx used = Some (s, e)"
    using assms ty len by (auto simp: finalizeGroup_def Let_def split: option.splits if_splits)
  have ent: "e_start ent = s" "e_end ent = e"
    using assms ty len pos by (auto simp: finalizeGroup_def Let_def split: option.splits if_splits)
  have r: "0 \<le> s \<and> e = s + int (length ?joined) \<and> \<not> overlaps_used used s e
     \<and> nat s + length (toLowerCase ?joined) \<le> length (toLowerCase tx)"
    by (rule findPosition_loop_result[OF pos[unfolded findPosition_def]])
  have "0x130 \<notin> set tx \<Longrightarrow> e \<le> int (length tx)"
  proof -
    assume "0x130 \<notin> set tx"
    then have "length (toLowerCase tx) = length tx" by (rule length_toLowerCase_eq)
    moreover have "length ?joined \<le> length (toLowerCase ?joined)" by (rule length_toLowerCase)
    ultimately have "nat s + length ?joined \<le> length tx" using r by linarith
    then show ?thesis using r by linarith
  qed
  then show ?thesis using r len ent by auto
qed

lemma overlap_sym: "overlap a b = overlap b a"
  by (auto simp: overlap_def)

lemma nonoverlapping_snoc:
  assumes "nonoverlapping es" and "\<forall>x\<in>set es. \<not> overlap e x"
  shows "nonoverlapping (es @ [e])"
  unfolding nonoverlapping_def
proof (intro allI impI)
  fix i j assume i: "i < length (es @ [e])" and j: "j < length (es @ [e])" and ne: "i \<noteq> j"
  show "\<not> overlap ((es @ [e]) ! i) ((es @ [e]) ! j)"
  proof (cases "i < length es")
    case True
    show ?thesis
    proof (cases "j < length es")
      case True
      with \<open>i < length es\<close> assms(1) ne show ?thesis
        by (simp add: nonoverlapping_def nth_append)
    next
      case False
      then have "j = length es" using j by simp
      then show ?thesis using True assms(2) overlap_sym[of e] by (simp add: nth_append)
    qed
  next
    case False
    then have ie: "i = length es" using i by simp
    then have "j < length es" using j ne by simp
    then show ?thesis using ie assms(2) by (simp add: nth_append)
  qed
qed

lemma not_overlaps_used:
  "\<not> overlaps_used (map (\<lambda>e. (e_start e, e_end e)) es) (e_start ent) (e_end ent)
   \<Longrightarrow> \<forall>x\<in>set es. \<not> overlap ent x"
  by (auto simp: overlaps_used_def overlap_def list_ex_iff)

lemma extend_inv:
  assumes "loc_inv tx st" and "finalizeGroup grp tx (l_usedRanges st) = Some ent"
  shows "loc_inv tx (st\<lparr>l_entities := l_entities st @ [ent],
                       l_usedRanges := l_usedRanges st @ [(e_start ent, e_end ent)]\<rparr>)"
proof -
  note r = finalizeGroup_result[OF assms(2)]
  have u: "l_usedRanges st = map (\<lambda>e. (e_start e, e_end e)) (l_entities st)"
    using assms(1) by (simp add: loc_inv_def)
  have "\<forall>x\<in>set (l_entities st). \<not> overlap ent x"
    using r u not_overlaps_used[of "l_entities st" ent] by simp
  then have "nonoverlapping (l_entities st @ [ent])"
    using assms(1) nonoverlapping_snoc by (simp add: loc_inv_def)
  then show ?thesis using assms(1) r u by (auto simp: loc_inv_def)
qed

lemma close_group_inv: "loc_inv tx st \<Longrightarrow> loc_inv tx (close_group tx st)"
  by (auto simp: close_group_def extend_inv split: option.splits)

lemma loc_inv_group: "loc_inv tx (st\<lparr>l_group := g\<rparr>) = loc_inv tx st"
  by (simp add: loc_inv_def)

lemma locate_step_inv: "loc_inv tx st \<Longrightarrow> loc_inv tx (locate_step tx st token)"
  by (auto simp: locate_step_def Let_def loc_inv_group close_group_inv split: option.splits)

lemma foldl_locate_inv: "loc_inv tx st \<Longrightarrow> loc_inv tx (foldl (locate_step tx) st tokens)"
  by (induction tokens arbitrary: st) (auto simp: locate_step_inv)

lemma init_inv: "loc_inv tx \<lparr>l_entities = [], l_usedRanges = [], l_group = None\<rparr>"
  by (simp add: loc_inv_def nonoverlapping_def)

text \<open>
  Whatever the tokens and the text, the located entities are pairwise non-overlapping and each
  has \<open>0 \<le> start < end\<close>. The end stays within the text when the text holds no U+0130.
\<close>

theorem located_spans:
  "nonoverlapping (groupAndLocateEntities tokens tx)
   \<and> (\<forall>e\<in>set (groupAndLocateEntities tokens tx).
         0 \<le> e_start e \<and> e_start e < e_end e
         \<and> (0x130 \<notin> set tx \<longrightarrow> e_end e \<le> int (length tx)))"
proof -
  let ?st = "foldl (locate_step tx) \<lparr>l_entities = [], l_usedRanges = [], l_group = None\<rparr> tokens"
  have inv: "loc_inv tx ?st" using init_inv by (rule foldl_locate_inv)
  show ?thesis
  proof (cases "l_group ?st")
    case None
    then show ?thesis using inv by (simp add: groupAndLocateEntities_def loc_inv_def)
  next
    case (Some grp)
    show ?thesis
    proof (cases "finalizeGroup grp tx (l_usedRanges ?st)")
      case None
      then show ?thesis using inv Some by (simp add: groupAndLocateEntities_def loc_inv_def)
    next
      case (Some ent)
      have "loc_inv tx (?st\<lparr>l_entities := l_entities ?st @ [ent],
                       l_usedRanges := l_usedRanges ?st @ [(e_start ent, e_end ent)]\<rparr>)"
        using inv Some by (rule extend_inv)
      then show ?thesis using \<open>l_group ?st = Some grp\<close> Some
        by (simp add: groupAndLocateEntities_def loc_inv_def)
    qed
  qed
qed

text \<open>
  The type of a located entity is a value of the label table or a member inherited from
  \<open>Object.prototype\<close>, never a string that names such a member: every entity the locator
  builds is \<open>well_keyed\<close>, as is every entity whose type is one of the seventeen literals.
\<close>

lemma label_type_well_keyed:
  "label_type label = Some ty \<Longrightarrow>
   (case ty of Lit s \<Rightarrow> s \<notin> set Object_prototype_keys | Inherited k \<Rightarrow> True)"
  by (auto simp: label_type_def LABEL_TO_PII_TYPE_def Object_prototype_keys_def
           split: option.splits if_splits)

lemma finalizeGroup_well_keyed: "finalizeGroup grp tx used = Some ent \<Longrightarrow> well_keyed ent"
  using label_type_well_keyed
  by (auto simp: finalizeGroup_def well_keyed_def Let_def split: option.splits if_splits)

lemma close_group_well_keyed:
  "list_all well_keyed (l_entities st) \<Longrightarrow> list_all well_keyed (l_entities (close_group tx st))"
  by (auto simp: close_group_def finalizeGroup_well_keyed split: option.splits)

lemma locate_step_well_keyed:
  "list_all well_keyed (l_entities st)
   \<Longrightarrow> list_all well_keyed (l_entities (locate_step tx st token))"
  by (auto simp: locate_step_def Let_def close_group_well_keyed split: option.splits)

lemma foldl_locate_well_keyed:
  "list_all well_keyed (l_entities st)
   \<Longrightarrow> list_all well_keyed (l_entities (foldl (locate_step tx) st tokens))"
  by (induction tokens arbitrary: st) (auto simp: locate_step_well_keyed)

lemma located_well_keyed: "list_all well_keyed (groupAndLocateEntities tokens tx)"
proof -
  let ?st = "foldl (locate_step tx) \<lparr>l_entities = [], l_usedRanges = [], l_group = None\<rparr> tokens"
  have "list_all well_keyed (l_entities ?st)" by (rule foldl_locate_well_keyed) simp
  then show ?thesis
    by (auto simp: groupAndLocateEntities_def Let_def finalizeGroup_well_keyed split: option.splits)
qed

lemma declared_types_well_keyed:
  "s \<in> set PII_ENTITY_TYPES \<Longrightarrow> well_keyed (e\<lparr>e_type := Lit s\<rparr>)"
  by (auto simp: well_keyed_def PII_ENTITY_TYPES_def Object_prototype_keys_def)

text \<open>
  C1. The bound \<open>end \<le> len(text)\<close> fails. \<open>findPosition\<close> searches the lower-case form of
  the text and uses the index found there as an offset into the text itself, and the
  lower-case form of U+0130 is one code unit longer. With the text U+0130 \<open>xy\<close> (length 3)
  and one token whose word is \<open>xy\<close>, the entity located has start 2 and end 4.
\<close>

theorem C1_span_past_the_end_of_the_text:
  "groupAndLocateEntities [tok_xy] (0x130 # js ''xy'')
     = [\<lparr>e_type = Lit (js ''EMAIL''), e_text = js ''y'', e_start = 2, e_end = 4,
         e_confidence = 1\<rparr>]
   \<and> length (0x130 # js ''xy'') = 3"
  by code_simp

section \<open>Properties of the redaction service\<close>

text \<open>
  C3. On a text that is not blank, when the timer fires before the pipeline answers: under
  \<open>failStrategy = open\<close> \<open>redact\<close> returns the input text with no entities, under
  \<open>closed\<close> it rejects with the \<open>InferenceTimeoutError\<close>. Any other error is rejected with
  whatever the strategy is.
\<close>

theorem C3_timeout_policy:
  assumes "\<not> blank tx"
  shows "redact X opts now Timer g tx =
           (if failStrategy opts = Open
            then (Inr \<lparr>rr_text = tx, rr_entities = [], rr_processingTimeMs = timeoutMs opts\<rparr>, g)
            else (Inl (InferenceTimeoutError (timeoutMs opts)), g))
         \<and> redact X opts now (First (Rejected (Thrown msg))) g tx = (Inl (Thrown msg), g)"
  using assms
  by (cases "failStrategy opts")
     (simp_all add: redact_def blank_def runWithTimeout_def runInference_def)

theorem C3_timeout_policy_witness:
  "\<forall>(X :: 'g externals) now g.
     redact X (simple_options\<lparr>failStrategy := Open\<rparr>) now Timer g (js ''My SSN is 123-45-6789.'')
       = (Inr \<lparr>rr_text = js ''My SSN is 123-45-6789.'', rr_entities = [],
               rr_processingTimeMs = 500\<rparr>, g)
     \<and> redact X simple_options now Timer g (js ''My SSN is 123-45-6789.'')
       = (Inl (InferenceTimeoutError 500), g)
     \<and> redact X (simple_options\<lparr>failStrategy := Open\<rparr>) now
          (First (Rejected (Thrown (js ''model not loaded'')))) g (js ''My SSN is 123-45-6789.'')
       = (Inl (Thrown (js ''model not loaded'')), g)"
proof -
  have nb: "\<not> blank (js ''My SSN is 123-45-6789.'')"
    by (simp add: blank_def trim_def isWhiteSpace_def js_def)
  have "\<And>(X :: 'g externals) now g.
     redact X (simple_options\<lparr>failStrategy := Open\<rparr>) now Timer g (js ''My SSN is 123-45-6789.'')
       = (Inr \<lparr>rr_text = js ''My SSN is 123-45-6789.'', rr_entities = [],
               rr_processingTimeMs = 500\<rparr>, g)
     \<and> redact X simple_options now Timer g (js ''My SSN is 123-45-6789.'')
       = (Inl (InferenceTimeoutError 500), g)
     \<and> redact X (simple_options\<lparr>failStrategy := Open\<rparr>) now
          (First (Rejected (Thrown (js ''model not loaded'')))) g (js ''My SSN is 123-45-6789.'')
       = (Inl (Thrown (js ''model not loaded'')), g)"
  proof -
    fix X :: "'g externals" and now g
    show "redact X (simple_options\<lparr>failStrategy := Open\<rparr>) now Timer g (js ''My SSN is 123-45-6789.'')
       = (Inr \<lparr>rr_text = js ''My SSN is 123-45-6789.'', rr_entities = [],
               rr_processingTimeMs = 500\<rparr>, g)
     \<and> redact X simple_options now Timer g (js ''My SSN is 123-45-6789.'')
       = (Inl (InferenceTimeoutError 500), g)
     \<and> redact X (simple_options\<lparr>failStrategy := Open\<rparr>) now
          (First (Rejected (Thrown (js ''model not loaded'')))) g (js ''My SSN is 123-45-6789.'')
       = (Inl (Thrown (js ''model not loaded'')), g)"
      using C3_timeout_policy[OF nb, of X "simple_options\<lparr>failStrategy := Open\<rparr>" now g
              "js ''model not loaded''"]
            C3_timeout_policy[OF nb, of X simple_options now g "js ''model not loaded''"]
      by (simp add: simple_options_def)
  qed
  then show ?thesis by blast
qed

lemma fold_step:
  "foldl (redact_one X opts now) (res, g) es
   = (foldl splice res (replacements X opts now g es),
      foldl (\<lambda>g e. snd (replacement_of X opts now g e)) g es)"
  by (induction es arbitrary: res g) (auto simp: splice_def redact_one_def split: prod.splits)

lemma replacements_fst: "map fst (replacements X opts now g es) = es"
  by (induction es arbitrary: g) auto

lemma pieces_snoc:
  "pieces tx pos p (asc @ [(e, r)])
     = pieces tx pos (nat (e_start e)) asc @ r @ take (p - nat (e_end e)) (drop (nat (e_end e)) tx)"
  by (induction asc arbitrary: pos) auto

lemma rebuilt_pieces: "rebuilt tx p ps = pieces tx 0 p (rev ps)"
  by (induction ps arbitrary: p) (auto simp: pieces_snoc)

lemma replace_spans_pieces: "replace_spans tx pos asc = pieces tx pos (length tx) asc"
  by (induction asc arbitrary: pos) auto

lemma splice_fit:
  assumes "0 \<le> e_start e" "e_start e \<le> e_end e" "nat (e_end e) \<le> p" "p \<le> length tx"
  shows "splice (take p tx @ suffix) (e, r)
           = take (nat (e_start e)) tx @ (r @ take (p - nat (e_end e)) (drop (nat (e_end e)) tx) @ suffix)"
proof -
  have s: "nat (e_start e) \<le> p" using assms by linarith
  have a: "slice (take p tx @ suffix) 0 (e_start e) = take (nat (e_start e)) tx"
    using assms s by (simp add: slice_def clamp_index_def min_def)
  have b: "slice_from (take p tx @ suffix) (e_end e)
             = take (p - nat (e_end e)) (drop (nat (e_end e)) tx) @ suffix"
    using assms by (simp add: slice_from_def clamp_index_def min_def drop_take)
  show ?thesis using a b by (simp add: splice_def)
qed

lemma foldl_splice_rebuilt:
  "fits tx p (map fst ps) \<Longrightarrow>
   foldl splice (take p tx @ suffix) ps = rebuilt tx p ps @ suffix"
proof (induction ps arbitrary: p suffix)
  case Nil
  then show ?case by simp
next
  case (Cons a ps)
  obtain e r where a: "a = (e, r)" by (cases a)
  have f: "0 \<le> e_start e" "e_start e \<le> e_end e" "nat (e_end e) \<le> p" "p \<le> length tx"
      "fits tx (nat (e_start e)) (map fst ps)"
    using Cons.prems a by simp_all
  have "foldl splice (take p tx @ suffix) (a # ps)
          = foldl splice (take (nat (e_start e)) tx
               @ (r @ take (p - nat (e_end e)) (drop (nat (e_end e)) tx) @ suffix)) ps"
    using splice_fit[OF f(1-4)] a by simp
  also have "\<dots> = rebuilt tx (nat (e_start e)) ps
               @ (r @ take (p - nat (e_end e)) (drop (nat (e_end e)) tx) @ suffix)"
    by (rule Cons.IH[OF f(5)])
  finally show ?case using a by simp
qed

lemma nonoverlapping_Cons:
  assumes "nonoverlapping (x # xs)"
  shows "(\<forall>y\<in>set xs. \<not> overlap x y) \<and> nonoverlapping xs"
proof
  show "\<forall>y\<in>set xs. \<not> overlap x y"
  proof
    fix y assume "y \<in> set xs"
    then obtain j where j: "j < length xs" "xs ! j = y" by (auto simp: in_set_conv_nth)
    have "\<not> overlap ((x # xs) ! 0) ((x # xs) ! Suc j)"
      using assms j(1) unfolding nonoverlapping_def by (metis length_Cons Suc_less_eq zero_less_Suc nat.distinct(1))
    then show "\<not> overlap x y" using j by simp
  qed
next
  show "nonoverlapping xs"
    unfolding nonoverlapping_def
  proof (intro allI impI)
    fix i j assume "i < length xs" "j < length xs" "i \<noteq> j"
    then have "\<not> overlap ((x # xs) ! Suc i) ((x # xs) ! Suc j)"
      using assms unfolding nonoverlapping_def by (metis length_Cons Suc_less_eq nat.inject)
    then show "\<not> overlap (xs ! i) (xs ! j)" by simp
  qed
qed

lemma nonoverlapping_separate: "nonoverlapping es \<Longrightarrow> separate es"
  by (induction es) (auto dest: nonoverlapping_Cons)

lemma separate_insort:
  "(\<forall>y\<in>set xs. \<not> overlap x y) \<Longrightarrow> separate xs \<Longrightarrow> separate (insort_key f x xs)"
  by (induction xs) (auto simp: overlap_sym[of x] set_insort_key)

lemma separate_sort: "separate es \<Longrightarrow> separate (sort_key f es)"
  by (induction es) (auto simp: sort_key_simps separate_insort)

lemma fits_desc:
  "sorted (map (\<lambda>e. - e_start e) ds) \<Longrightarrow> separate ds
   \<Longrightarrow> \<forall>e\<in>set ds. 0 \<le> e_start e \<and> e_start e < e_end e \<and> e_end e \<le> int p
   \<Longrightarrow> p \<le> length tx \<Longrightarrow> fits tx p ds"
proof (induction ds arbitrary: p)
  case Nil
  then show ?case by simp
next
  case (Cons a ds)
  have a: "0 \<le> e_start a" "e_start a < e_end a" "e_end a \<le> int p" using Cons.prems(3) by simp_all
  have "\<forall>e\<in>set ds. 0 \<le> e_start e \<and> e_start e < e_end e \<and> e_end e \<le> int (nat (e_start a))"
  proof
    fix e assume e: "e \<in> set ds"
    have le: "e_start e \<le> e_start a" using Cons.prems(1) e by auto
    have "\<not> overlap a e" using Cons.prems(2) e by simp
    then have "e_end e \<le> e_start a" using a le Cons.prems(3) e by (auto simp: overlap_def)
    then show "0 \<le> e_start e \<and> e_start e < e_end e \<and> e_end e \<le> int (nat (e_start a))"
      using Cons.prems(3) e a by simp
  qed
  moreover have "nat (e_start a) \<le> length tx" using a Cons.prems(4) by linarith
  ultimately have "fits tx (nat (e_start a)) ds"
    using Cons.IH[of "nat (e_start a)"] Cons.prems(1,2) by simp
  then show ?case using a Cons.prems(4) by simp
qed

lemma desc_strict:
  "sorted (map (\<lambda>e. - e_start e) ds) \<Longrightarrow> separate ds
   \<Longrightarrow> \<forall>e\<in>set ds. e_start e < e_end e
   \<Longrightarrow> sorted_wrt (\<lambda>a b. e_start b < e_start a) ds"
proof (induction ds)
  case Nil
  then show ?case by simp
next
  case (Cons a ds)
  have "\<forall>e\<in>set ds. e_start e < e_start a"
  proof
    fix e assume e: "e \<in> set ds"
    have le: "e_start e \<le> e_start a" using Cons.prems(1) e by auto
    have "\<not> overlap a e" using Cons.prems(2) e by simp
    then show "e_start e < e_start a" using le Cons.prems(3) e by (auto simp: overlap_def)
  qed
  then show ?case using Cons by simp
qed

text \<open>
  C4. For entities whose spans lie within the text and do not overlap, \<open>applyRedactions\<close>
  takes the entities in strictly descending order of start offset and returns the text in
  which the span of each entity is replaced by the replacement generated for it, every
  character outside the spans staying as it is and where it is.
\<close>

theorem C4_applyRedactions:
  assumes "\<forall>e\<in>set entities. 0 \<le> e_start e \<and> e_start e < e_end e \<and> e_end e \<le> int (length tx)"
      and "nonoverlapping entities"
  shows "fst (applyRedactions X opts now g tx entities)
           = replace_spans tx 0
               (rev (replacements X opts now g (sort_key (\<lambda>e. - e_start e) entities)))
         \<and> sorted_wrt (\<lambda>a b. e_start b < e_start a) (sort_key (\<lambda>e. - e_start e) entities)
         \<and> mset (sort_key (\<lambda>e. - e_start e) entities) = mset entities"
proof -
  let ?ds = "sort_key (\<lambda>e. - e_start e) entities"
  let ?ps = "replacements X opts now g ?ds"
  have srt: "sorted (map (\<lambda>e. - e_start e) ?ds)" by simp
  have sep: "separate ?ds" using assms(2) by (simp add: nonoverlapping_separate separate_sort)
  have bnd: "\<forall>e\<in>set ?ds. 0 \<le> e_start e \<and> e_start e < e_end e \<and> e_end e \<le> int (length tx)"
    using assms(1) by simp
  have "fits tx (length tx) ?ds" using srt sep bnd by (rule fits_desc) simp
  then have "fits tx (length tx) (map fst ?ps)" by (simp add: replacements_fst)
  then have "foldl splice (take (length tx) tx @ []) ?ps = rebuilt tx (length tx) ?ps @ []"
    by (rule foldl_splice_rebuilt)
  then have "foldl splice tx ?ps = replace_spans tx 0 (rev ?ps)"
    by (simp add: rebuilt_pieces replace_spans_pieces)
  then have "fst (applyRedactions X opts now g tx entities) = replace_spans tx 0 (rev ?ps)"
    by (simp add: applyRedactions_def fold_step Let_def)
  moreover have "sorted_wrt (\<lambda>a b. e_start b < e_start a) ?ds"
    using srt sep bnd by (intro desc_strict) auto
  ultimately show ?thesis by simp
qed

theorem C4_applyRedactions_witness:
  "\<forall>(X :: 'g externals) now g.
     fst (applyRedactions X simple_options now g (js ''Bob: bob@x.org'') [person_bob, email_bob])
       = js ''[PERSON]: [EMAIL]''"
proof -
  have b: "\<forall>e\<in>set [person_bob, email_bob]. 0 \<le> e_start e \<and> e_start e < e_end e
             \<and> e_end e \<le> int (length (js ''Bob: bob@x.org''))"
    by (simp add: person_bob_def email_bob_def js_def)
  have n: "nonoverlapping [person_bob, email_bob]"
    by (auto simp: nonoverlapping_def overlap_def person_bob_def email_bob_def nth_Cons' less_Suc_eq)
  have r: "\<And>(X :: 'g externals) now g.
     replace_spans (js ''Bob: bob@x.org'') 0
               (rev (replacements X simple_options now g (sort_key (\<lambda>e. - e_start e) [person_bob, email_bob])))
       = js ''[PERSON]: [EMAIL]''"
    by (simp add: person_bob_def email_bob_def simple_options_def replacement_of_def
          getSimpleRedaction_def String_of_def js_def)
  have "\<And>(X :: 'g externals) now g.
     fst (applyRedactions X simple_options now g (js ''Bob: bob@x.org'') [person_bob, email_bob])
       = js ''[PERSON]: [EMAIL]''"
  proof -
    fix X :: "'g externals" and now g
    have "fst (applyRedactions X simple_options now g (js ''Bob: bob@x.org'') [person_bob, email_bob])
       = replace_spans (js ''Bob: bob@x.org'') 0
               (rev (replacements X simple_options now g (sort_key (\<lambda>e. - e_start e) [person_bob, email_bob])))"
      using C4_applyRedactions[OF b n, of X simple_options now g] by (rule conjunct1)
    then show "fst (applyRedactions X simple_options now g (js ''Bob: bob@x.org'') [person_bob, email_bob])
       = js ''[PERSON]: [EMAIL]''"
      by (simp only: r)
  qed
  then show ?thesis by blast
qed

section \<open>Properties of the streaming transformer\<close>




lemma extract_fst: "fst (extractDeltaContent data st) = delta_text data"
  by (auto simp: extractDeltaContent_def delta_text_def Let_def split: option.splits list.splits)

lemma extract_snd:
  "\<exists>m. snd (extractDeltaContent data st) = st\<lparr>lastMeta := m\<rparr>"
proof (cases "chunk_choices data")
  case None
  then have "snd (extractDeltaContent data st) = st\<lparr>lastMeta := lastMeta st\<rparr>"
    by (simp add: extractDeltaContent_def)
  then show ?thesis by blast
next
  case (Some cs)
  show ?thesis
  proof (cases cs)
    case Nil
    then have "snd (extractDeltaContent data st) = st\<lparr>lastMeta := lastMeta st\<rparr>"
      using Some by (simp add: extractDeltaContent_def)
    then show ?thesis by blast
  next
    case (Cons c rest)
    show ?thesis
    proof (cases c)
      case None
      then have "snd (extractDeltaContent data st) = st\<lparr>lastMeta := lastMeta st\<rparr>"
        using Some Cons by (simp add: extractDeltaContent_def)
      then show ?thesis by blast
    next
      case (Some choice)
      then show ?thesis using \<open>chunk_choices data = Some cs\<close> Cons
        by (auto simp: extractDeltaContent_def Let_def split: option.splits)
    qed
  qed
qed






lemma stream_inv_reads: "stream_inv svc w0 (st\<lparr>clock_reads := n\<rparr>) = stream_inv svc w0 st"
  by (simp add: stream_inv_def)

lemma line_text_plain:
  "\<not> startsWith (strip_cr rawLine) (js ''data:'') \<Longrightarrow> line_text parse rawLine = []"
  by (simp add: line_text_def)














text \<open>
  Without the hypothesis of C5 text can be lost. When the flush that a content line triggers
  ends in an error, the \<open>catch\<close> meant for \<open>JSON.parse\<close> takes it: the call goes on
  without error, the buffered text has left the buffer and is in no frame, and the line is
  pushed as it came.
\<close>

lemma flush_error_caught_in_transform:
  assumes "startsWith (strip_cr rawLine) (js ''data:'')"
      and "trim (slice_from (strip_cr rawLine) 5) \<noteq> js ''[DONE]''"
      and "parse (trim (slice_from (strip_cr rawLine) 5)) = Some data"
      and "delta_text data \<noteq> []"
      and "SENTENCE_BOUNDARY_test (buffer st @ delta_text data)"
      and "svc (world st) (buffer st @ delta_text data) = (Inl err, w)"
  shows "fst (process_line clk options parse svc st rawLine) = None
         \<and> pushed (snd (process_line clk options parse svc st rawLine))
             = pushed st @ [Raw (strip_cr rawLine @ js [CHR 0x0A])]
         \<and> buffer (snd (process_line clk options parse svc st rawLine)) = []"
proof -
  obtain m where e: "snd (extractDeltaContent data st) = st\<lparr>lastMeta := m\<rparr>"
    using extract_snd by blast
  have c: "fst (extractDeltaContent data st) = delta_text data" by (rule extract_fst)
  let ?st2 = "st\<lparr>lastMeta := m, buffer := buffer st @ delta_text data,
                 tokenCount := tokenCount st + estimateTokens (delta_text data)\<rparr>"
  have sf: "shouldFlush clk options ?st2 = (True, ?st2)"
    using assms(5) by (simp add: shouldFlush_def)
  have fl: "flushBuffer clk svc ?st2
          = (Some err, ?st2\<lparr>buffer := [], tokenCount := 0, lastFlushTime := clk (clock_reads st),
                      clock_reads := Suc (clock_reads st),
                      sent := sent st @ [buffer st @ delta_text data], world := w\<rparr>)"
    using assms(4,6) by (simp add: flushBuffer_def Let_def)
  show ?thesis
    using assms(1-4) e c sf fl
    by (simp add: process_line_def Let_def case_prod_beta push_def)
qed







end
